theory Spec2Isabelle
  imports Main "HOL-Library.Sublist"
begin

section \<open>JavaScript strings and arrays\<close>

text \<open>
  A JavaScript string is a sequence of code units; \<open>startsWith\<close>, \<open>includes\<close> and
  \<open>replace\<close> with a string pattern work on that sequence. \<open>replace\<close> with a string
  pattern rewrites the first occurrence only; the two replacement texts used by the
  program hold no \<open>$\<close> pattern, so the replacement is inserted as it is.
\<close>

definition startsWith :: "string \<Rightarrow> string \<Rightarrow> bool" where
  "startsWith s pat = (take (length pat) s = pat)"

fun str_includes :: "string \<Rightarrow> string \<Rightarrow> bool" where
  "str_includes [] pat = (pat = [])"
| "str_includes (c # cs) pat = (startsWith (c # cs) pat \<or> str_includes cs pat)"

fun str_replace :: "string \<Rightarrow> string \<Rightarrow> string \<Rightarrow> string" where
  "str_replace [] pat rep = (if pat = [] then rep else [])"
| "str_replace (c # cs) pat rep =
     (if startsWith (c # cs) pat then rep @ drop (length pat) (c # cs)
      else c # str_replace cs pat rep)"

text \<open>\<open>Array.prototype.findIndex\<close>: the first index whose element passes, \<open>-1\<close> as \<open>None\<close>.\<close>

fun findIndex :: "('a \<Rightarrow> bool) \<Rightarrow> 'a list \<Rightarrow> nat option" where
  "findIndex p [] = None"
| "findIndex p (x # xs) = (if p x then Some 0 else map_option Suc (findIndex p xs))"

text \<open>\<open>[...new Set(xs)]\<close>: the elements in order of first occurrence.\<close>

fun set_spread :: "'a list \<Rightarrow> 'a list" where
  "set_spread [] = []"
| "set_spread (x # xs) = x # set_spread (filter (\<lambda>y. y \<noteq> x) xs)"

text \<open>The JSON values a request body can hold where the handlers expect an array of ids.\<close>

datatype jval = JNull | JBool bool | JNum int | JStr string | JArr "jval list"

section \<open>Data model\<close>

type_synonym timestamp = string

record subscription =
  sub_userKey :: string
  sub_channelIds :: "string list"
  sub_webhookUrl :: string
  sub_timestamp :: timestamp

record hub_request =
  hub_callback :: string
  hub_mode :: string
  hub_topic :: string
  hub_verify :: string
  hub_lease_seconds :: "nat option"

record hub_result =
  hr_success :: bool
  hr_channelId :: string
  hr_callbackUrl :: string
  hr_webhookUrl :: string

record video_info =
  vi_videoId :: "string option"
  vi_channelId :: "string option"
  vi_title :: "string option"
  vi_link :: "string option"
  vi_author :: "string option"
  vi_published :: "string option"
  vi_updated :: "string option"

record payload =
  p_event :: string
  p_video_id :: "string option"
  p_video_title :: "string option"
  p_video_url :: "string option"
  p_video_published_at :: "string option"
  p_video_updated_at :: "string option"
  p_channel_id :: "string option"
  p_channel_name :: "string option"
  p_timestamp :: timestamp

text \<open>The calls that leave the process, in the order they are issued.\<close>

datatype event =
    RedisGet
  | RedisSet "subscription list"
  | HubPost hub_request
  | WebhookPost string payload

text \<open>
  The world a request runs in: the blob under the key \<open>youtube_subscriptions\<close>
  (\<open>None\<close> while the key is absent), what the next Redis reads, Redis writes, hub
  requests and webhook posts will do (\<open>True\<close>: the call throws; an exhausted list: no
  further failure), the wall clock as the sequence of its readings, and the trace of
  the calls made so far. A write that throws leaves the blob as it was. The clock is
  read where \<open>new Date().toISOString()\<close> flows into a record or a payload; the
  readings made for log lines are not counted. Of an answer of the hub or of a webhook
  only success or failure is kept, not the status code, the body or the error text.
\<close>

record world =
  blob :: "subscription list option"
  get_faults :: "bool list"
  set_faults :: "bool list"
  hub_faults :: "bool list"
  post_faults :: "bool list"
  clock :: "nat \<Rightarrow> timestamp"
  tick :: nat
  trace :: "event list"

text \<open>
  What the program takes from its platform: the hex MD5 digest of \<open>crypto\<close>, whether
  \<open>new URL\<close> accepts a string, and the first entry of the feed that the XML parser
  finds in a notification body (\<open>None\<close> when the parser throws or the feed has no entry).
\<close>

record platform =
  md5_hex :: "string \<Rightarrow> string"
  url_parses :: "string \<Rightarrow> bool"
  feed_entry :: "string \<Rightarrow> video_info option"

text \<open>
  The calls on the world. \<open>pop_fault\<close> takes what the next call of one kind will do;
  a Redis command and a hub request are recorded in the trace whether they fail or not.
\<close>

definition pop_fault :: "bool list \<Rightarrow> bool \<times> bool list" where
  "pop_fault fs = (case fs of [] \<Rightarrow> (False, []) | f # r \<Rightarrow> (f, r))"

definition new_date :: "world \<Rightarrow> timestamp \<times> world" where
  "new_date w = (clock w (tick w), w\<lparr>tick := Suc (tick w)\<rparr>)"

definition redis_get :: "world \<Rightarrow> (unit + subscription list option) \<times> world" where
  "redis_get w =
     (case pop_fault (get_faults w) of (f, fs) \<Rightarrow>
        (if f then Inl () else Inr (blob w),
         w\<lparr>get_faults := fs, trace := trace w @ [RedisGet]\<rparr>))"

definition redis_set :: "subscription list \<Rightarrow> world \<Rightarrow> (unit + unit) \<times> world" where
  "redis_set v w =
     (case pop_fault (set_faults w) of (f, fs) \<Rightarrow>
        (if f then (Inl (), w\<lparr>set_faults := fs, trace := trace w @ [RedisSet v]\<rparr>)
         else (Inr (), w\<lparr>blob := Some v, set_faults := fs, trace := trace w @ [RedisSet v]\<rparr>)))"

section \<open>lib/storage.js\<close>

definition getSubscriptions :: "world \<Rightarrow> subscription list \<times> world" where
  "getSubscriptions w =
     (case redis_get w of
        (Inl _, w') \<Rightarrow> ([], w')
      | (Inr None, w') \<Rightarrow> ([], w')
      | (Inr (Some subs), w') \<Rightarrow> (subs, w'))"

definition saveSubscriptions :: "subscription list \<Rightarrow> world \<Rightarrow> bool \<times> world" where
  "saveSubscriptions subs w =
     (case redis_set subs w of (Inl _, w') \<Rightarrow> (False, w') | (Inr _, w') \<Rightarrow> (True, w'))"

definition addSubscription :: "subscription \<Rightarrow> world \<Rightarrow> bool \<times> world" where
  "addSubscription s w =
     (case getSubscriptions w of (subs, w1) \<Rightarrow> saveSubscriptions (subs @ [s]) w1)"

definition updateSubscription :: "string \<Rightarrow> subscription \<Rightarrow> world \<Rightarrow> bool \<times> world" where
  "updateSubscription userKey updatedSubscription w =
     (case getSubscriptions w of (subs, w1) \<Rightarrow>
        (case findIndex (\<lambda>s. sub_userKey s = userKey) subs of
           None \<Rightarrow> (False, w1)
         | Some i \<Rightarrow> saveSubscriptions (subs[i := updatedSubscription]) w1))"

section \<open>lib/pubsubhubbub.js\<close>

definition generateTopicUrl :: "string \<Rightarrow> string" where
  "generateTopicUrl channelId =
     ''https://www.youtube.com/xml/feeds/videos.xml?channel_id='' @ channelId"

definition generateUserKey :: "platform \<Rightarrow> string \<Rightarrow> string" where
  "generateUserKey P webhookUrl = take 16 (md5_hex P webhookUrl)"

definition generateCallbackUrl :: "string \<Rightarrow> string" where
  "generateCallbackUrl userKey = ''https://youtube-notifier.vercel.app/api/websub/'' @ userKey"

text \<open>\<open>axios.post\<close> of a form to the hub: whether it returned, \<open>False\<close> when it threw.\<close>

definition hub_post :: "hub_request \<Rightarrow> world \<Rightarrow> bool \<times> world" where
  "hub_post rq w =
     (case pop_fault (hub_faults w) of (f, fs) \<Rightarrow>
        (\<not> f, w\<lparr>hub_faults := fs, trace := trace w @ [HubPost rq]\<rparr>))"

definition subscribeToChannel ::
  "string \<Rightarrow> string \<Rightarrow> string \<Rightarrow> nat \<Rightarrow> world \<Rightarrow> hub_result \<times> world" where
  "subscribeToChannel channelId webhookUrl userKey leaseSeconds w =
     (let topicUrl = generateTopicUrl channelId;
          callbackUrl = generateCallbackUrl userKey;
          formData = \<lparr>hub_callback = callbackUrl, hub_mode = ''subscribe'',
                      hub_topic = topicUrl, hub_verify = ''sync'',
                      hub_lease_seconds = Some leaseSeconds\<rparr>
      in case hub_post formData w of (ok, w') \<Rightarrow>
           (\<lparr>hr_success = ok, hr_channelId = channelId, hr_callbackUrl = callbackUrl,
             hr_webhookUrl = webhookUrl\<rparr>, w'))"

text \<open>
  \<open>Promise.all\<close> over \<open>xs.map(f)\<close>: the calls are issued in the order of the array and
  every one of them is awaited; none of them rejects, so none is skipped.
\<close>

fun promise_all :: "('a \<Rightarrow> world \<Rightarrow> 'b \<times> world) \<Rightarrow> 'a list \<Rightarrow> world \<Rightarrow> 'b list \<times> world" where
  "promise_all f [] w = ([], w)"
| "promise_all f (x # xs) w =
     (case f x w of (r, w1) \<Rightarrow>
        (case promise_all f xs w1 of (rs, w2) \<Rightarrow> (r # rs, w2)))"

definition subscribeToChannels ::
  "string list \<Rightarrow> string \<Rightarrow> string \<Rightarrow> world \<Rightarrow> hub_result list \<times> world" where
  "subscribeToChannels channelIds webhookUrl userKey w =
     promise_all (\<lambda>channelId. subscribeToChannel channelId webhookUrl userKey 864000) channelIds w"

definition unsubscribeFromChannel ::
  "string \<Rightarrow> string \<Rightarrow> string \<Rightarrow> world \<Rightarrow> hub_result \<times> world" where
  "unsubscribeFromChannel channelId webhookUrl userKey w =
     (let topicUrl = generateTopicUrl channelId;
          callbackUrl = generateCallbackUrl userKey;
          formData = \<lparr>hub_callback = callbackUrl, hub_mode = ''unsubscribe'',
                      hub_topic = topicUrl, hub_verify = ''sync'',
                      hub_lease_seconds = None\<rparr>
      in case hub_post formData w of (ok, w') \<Rightarrow>
           (\<lparr>hr_success = ok, hr_channelId = channelId, hr_callbackUrl = callbackUrl,
             hr_webhookUrl = webhookUrl\<rparr>, w'))"

section \<open>The URL helpers of the endpoints\<close>

definition isValidUrl :: "platform \<Rightarrow> string \<Rightarrow> bool" where
  "isValidUrl P url = url_parses P url"

fun isValidYouTubeChannelId :: "jval \<Rightarrow> bool" where
  "isValidYouTubeChannelId (JStr channelId) =
     (startsWith channelId ''UC'' \<and> length channelId = 24)"
| "isValidYouTubeChannelId _ = False"

definition findSubscriptionByWebhook :: "string \<Rightarrow> world \<Rightarrow> subscription option \<times> world" where
  "findSubscriptionByWebhook webhookUrl w =
     (case getSubscriptions w of (subs, w1) \<Rightarrow>
        (find (\<lambda>s. sub_webhookUrl s = webhookUrl) subs, w1))"

definition isTestWebhook :: "string \<Rightarrow> bool" where
  "isTestWebhook webhookUrl = (webhookUrl \<noteq> [] \<and> str_includes webhookUrl ''webhook-test'')"

definition isProductionWebhook :: "string \<Rightarrow> bool" where
  "isProductionWebhook webhookUrl =
     (webhookUrl \<noteq> [] \<and> str_includes webhookUrl ''webhook''
      \<and> \<not> str_includes webhookUrl ''webhook-test'')"

definition isN8nWebhook :: "string \<Rightarrow> bool" where
  "isN8nWebhook webhookUrl =
     (webhookUrl \<noteq> []
      \<and> (str_includes webhookUrl ''webhook-test'' \<or> str_includes webhookUrl ''webhook''))"

definition getProductionWebhookUrl :: "string \<Rightarrow> string option" where
  "getProductionWebhookUrl webhookUrl =
     (if webhookUrl = [] then None
      else if str_includes webhookUrl ''webhook-test''
        then Some (str_replace webhookUrl ''webhook-test'' ''webhook'')
      else None)"

definition getTestWebhookUrl :: "string \<Rightarrow> string option" where
  "getTestWebhookUrl webhookUrl =
     (if webhookUrl = [] then None
      else if str_includes webhookUrl ''webhook'' \<and> \<not> str_includes webhookUrl ''webhook-test''
        then Some (str_replace webhookUrl ''webhook'' ''webhook-test'')
      else None)"

section \<open>pages/api/subscribe.js\<close>

record sub_result =
  sr_success :: bool
  sr_userKey :: "string option"
  sr_message :: string
  sr_webhookUrl :: string
  sr_newlySubscribedChannels :: "string list option"
  sr_resubscribedChannels :: "string list option"
  sr_resubscriptionResults :: "hub_result list option"

text \<open>
  Lines 233 to 285 of \<open>processSubscription\<close>: the lookup, the split of the requested
  channels and the write. The result is the existing record, the user key, whether the
  write succeeded, the newly subscribed and the resubscribed channels.
\<close>

definition processSubscription_store ::
  "platform \<Rightarrow> string list \<Rightarrow> string \<Rightarrow> world \<Rightarrow>
   (subscription option \<times> string \<times> bool \<times> string list \<times> string list) \<times> world" where
  "processSubscription_store P channelIds webhookUrl w =
     (case findSubscriptionByWebhook webhookUrl w of (existingSubscription, w1) \<Rightarrow>
        (case existingSubscription of
           Some e \<Rightarrow>
             (let userKey = sub_userKey e;
                  newlySubscribedChannels =
                    filter (\<lambda>id. id \<notin> set (sub_channelIds e)) channelIds;
                  resubscribedChannels =
                    filter (\<lambda>id. id \<in> set (sub_channelIds e)) channelIds;
                  updatedChannelIds = set_spread (sub_channelIds e @ newlySubscribedChannels)
              in case new_date w1 of (t, w2) \<Rightarrow>
                   (case updateSubscription userKey
                           (e\<lparr>sub_channelIds := updatedChannelIds, sub_timestamp := t\<rparr>) w2 of
                      (success, w3) \<Rightarrow>
                        ((existingSubscription, userKey, success,
                          newlySubscribedChannels, resubscribedChannels), w3)))
         | None \<Rightarrow>
             (let userKey = generateUserKey P webhookUrl
              in case new_date w1 of (t, w2) \<Rightarrow>
                   (case addSubscription
                           \<lparr>sub_userKey = userKey, sub_channelIds = channelIds,
                            sub_webhookUrl = webhookUrl, sub_timestamp = t\<rparr> w2 of
                      (success, w3) \<Rightarrow>
                        ((existingSubscription, userKey, success, channelIds, []), w3)))))"

text \<open>Lines 331 to 341: the message of a successful result.\<close>

definition subscription_message :: "subscription option \<Rightarrow> string list \<Rightarrow> string list \<Rightarrow> string" where
  "subscription_message existingSubscription newlySubscribedChannels resubscribedChannels =
     (if existingSubscription = None then ''Subscribed successfully''
      else if newlySubscribedChannels \<noteq> [] \<and> resubscribedChannels \<noteq> []
        then ''Subscription updated with new channels and existing channels resubscribed''
      else if newlySubscribedChannels \<noteq> [] then ''Subscription updated successfully''
      else ''All channels have been resubscribed'')"

definition processSubscription ::
  "platform \<Rightarrow> string list \<Rightarrow> string \<Rightarrow> world \<Rightarrow> sub_result \<times> world" where
  "processSubscription P channelIds webhookUrl w =
     (case processSubscription_store P channelIds webhookUrl w of
        ((existingSubscription, userKey, success,
          newlySubscribedChannels, resubscribedChannels), w3) \<Rightarrow>
        if \<not> success then
          (\<lparr>sr_success = False, sr_userKey = None,
            sr_message = ''Failed to save/update subscription'',
            sr_webhookUrl = webhookUrl, sr_newlySubscribedChannels = None,
            sr_resubscribedChannels = None, sr_resubscriptionResults = None\<rparr>, w3)
        else
          (case (if newlySubscribedChannels \<noteq> []
                 then subscribeToChannels newlySubscribedChannels webhookUrl userKey w3
                 else ([], w3)) of (subscriptionResults, w4) \<Rightarrow>
          (case (if resubscribedChannels \<noteq> []
                 then subscribeToChannels resubscribedChannels webhookUrl userKey w4
                 else ([], w4)) of (resubscriptionResults, w5) \<Rightarrow>
             (\<lparr>sr_success = True, sr_userKey = Some userKey,
               sr_message = subscription_message existingSubscription
                              newlySubscribedChannels resubscribedChannels,
               sr_webhookUrl = webhookUrl,
               sr_newlySubscribedChannels =
                 (if newlySubscribedChannels \<noteq> [] then Some newlySubscribedChannels else None),
               sr_resubscribedChannels =
                 (if resubscribedChannels \<noteq> [] then Some resubscribedChannels else None),
               sr_resubscriptionResults =
                 (if resubscribedChannels \<noteq> [] then Some resubscriptionResults else None)\<rparr>,
              w5))))"

record subscribe_request =
  sq_method :: string
  sq_channelIds :: "jval option"
  sq_webhookUrl :: "string option"

record dual_subscription =
  ds_productionWebhookUrl :: string
  ds_success :: bool
  ds_userKey :: "string option"
  ds_message :: string
  ds_newlySubscribedChannels :: "string list option"
  ds_resubscribedChannels :: "string list option"
  ds_resubscriptionResults :: "hub_result list option"

datatype subscribe_body =
    SubscribeError string "jval list option"
  | SubscribeOk sub_result "dual_subscription option"

text \<open>The ids of an array that has passed the format check, where every element is a string.\<close>

fun channel_strings :: "jval list \<Rightarrow> string list" where
  "channel_strings [] = []"
| "channel_strings (JStr s # vs) = s # channel_strings vs"
| "channel_strings (_ # vs) = channel_strings vs"

definition dualSubscription :: "string \<Rightarrow> sub_result \<Rightarrow> dual_subscription" where
  "dualSubscription productionWebhookUrl r =
     \<lparr>ds_productionWebhookUrl = productionWebhookUrl, ds_success = sr_success r,
      ds_userKey = sr_userKey r, ds_message = sr_message r,
      ds_newlySubscribedChannels = sr_newlySubscribedChannels r,
      ds_resubscribedChannels = sr_resubscribedChannels r,
      ds_resubscriptionResults =
        (if sr_resubscribedChannels r = None then None else sr_resubscriptionResults r)\<rparr>"

definition subscribe_handler ::
  "platform \<Rightarrow> subscribe_request \<Rightarrow> world \<Rightarrow> (nat \<times> subscribe_body) \<times> world" where
  "subscribe_handler P rq w =
     (if sq_method rq \<noteq> ''POST''
        then ((405, SubscribeError ''Method not allowed. Please use POST.'' None), w)
      else case sq_channelIds rq of
        Some (JArr (c # cs)) \<Rightarrow>
          (let invalidChannelIds = filter (\<lambda>id. \<not> isValidYouTubeChannelId id) (c # cs)
           in if invalidChannelIds \<noteq> []
                then ((400, SubscribeError
                        ''One or more channel IDs are not in the correct YouTube format''
                        (Some invalidChannelIds)), w)
              else case sq_webhookUrl rq of
                None \<Rightarrow> ((400, SubscribeError ''webhookUrl must be a valid URL'' None), w)
              | Some webhookUrl \<Rightarrow>
                if webhookUrl = [] \<or> \<not> isValidUrl P webhookUrl
                  then ((400, SubscribeError ''webhookUrl must be a valid URL'' None), w)
                else
                (let channelIds = channel_strings (c # cs);
                     isTestUrl = isTestWebhook webhookUrl;
                     productionWebhookUrl =
                       (if isTestUrl then getProductionWebhookUrl webhookUrl else None)
                 in case processSubscription P channelIds webhookUrl w of
                      (mainSubscriptionResult, w1) \<Rightarrow>
                      (case productionWebhookUrl of
                         Some p \<Rightarrow>
                           if isTestUrl \<and> p \<noteq> [] then
                             (case processSubscription P channelIds p w1 of
                                (productionSubscriptionResult, w2) \<Rightarrow>
                                  ((200, SubscribeOk mainSubscriptionResult
                                           (Some (dualSubscription p productionSubscriptionResult))),
                                   w2))
                           else ((200, SubscribeOk mainSubscriptionResult None), w1)
                       | None \<Rightarrow> ((200, SubscribeOk mainSubscriptionResult None), w1))))
      | _ \<Rightarrow>
          ((400, SubscribeError
                   ''channelIds must be a non-empty array of YouTube channel IDs'' None), w))"

section \<open>pages/api/unsubscribe.js\<close>

record unsub_result =
  ur_success :: bool
  ur_message :: string
  ur_webhookUrl :: string
  ur_unsubscribedChannels :: "string list"
  ur_unsubscriptionResults :: "hub_result list"
  ur_remainingChannels :: "string list option"

definition processUnsubscription ::
  "string list \<Rightarrow> string \<Rightarrow> subscription \<Rightarrow> world \<Rightarrow> unsub_result \<times> world" where
  "processUnsubscription channelsToUnsubscribe webhookUrl subscription w =
     (let userKey = sub_userKey subscription
      in case promise_all (\<lambda>channelId. unsubscribeFromChannel channelId webhookUrl userKey)
                channelsToUnsubscribe w of (unsubscriptionResults, w1) \<Rightarrow>
         (let remainingChannelIds =
                filter (\<lambda>id. id \<notin> set channelsToUnsubscribe) (sub_channelIds subscription)
          in case (if remainingChannelIds = [] then
                     (case getSubscriptions w1 of (subscriptions, w2) \<Rightarrow>
                        (case saveSubscriptions
                                (filter (\<lambda>sub. sub_userKey sub \<noteq> userKey) subscriptions) w2 of
                           (success, w3) \<Rightarrow>
                             ((success, ''Unsubscribed from all channels and removed subscription''),
                              w3)))
                   else
                     (case new_date w1 of (t, w2) \<Rightarrow>
                        (case updateSubscription userKey
                                (subscription\<lparr>sub_channelIds := remainingChannelIds,
                                              sub_timestamp := t\<rparr>) w2 of
                           (success, w3) \<Rightarrow>
                             ((success, ''Unsubscribed from specified channels''), w3))))
             of ((success, message), w3) \<Rightarrow>
               if \<not> success then
                 (\<lparr>ur_success = False, ur_message = ''Failed to update/remove subscription'',
                   ur_webhookUrl = webhookUrl, ur_unsubscribedChannels = channelsToUnsubscribe,
                   ur_unsubscriptionResults = unsubscriptionResults,
                   ur_remainingChannels = None\<rparr>, w3)
               else
                 (\<lparr>ur_success = True, ur_message = message,
                   ur_webhookUrl = webhookUrl, ur_unsubscribedChannels = channelsToUnsubscribe,
                   ur_unsubscriptionResults = unsubscriptionResults,
                   ur_remainingChannels = Some remainingChannelIds\<rparr>, w3)))"

record unsubscribe_request =
  uq_method :: string
  uq_webhookUrl :: "string option"
  uq_channelIds :: "jval option"
  uq_allChannels :: "jval option"

record dual_unsubscription =
  du_counterpartWebhookUrl :: string
  du_success :: bool
  du_message :: string
  du_unsubscribedChannels :: "string list"
  du_unsubscriptionResults :: "hub_result list"
  du_remainingChannels :: "string list option"

text \<open>
  The bodies of the unsubscribe endpoint. An error carries its message and, where the
  source adds them, the webhook URL, the ill-formed ids, and the requested ids with the
  ids of the record.
\<close>

datatype unsubscribe_body =
    UnsubscribeError string "string option" "jval list option" "(jval list \<times> string list) option"
  | UnsubscribeOk unsub_result "dual_unsubscription option"

definition dualUnsubscription :: "string \<Rightarrow> unsub_result \<Rightarrow> dual_unsubscription" where
  "dualUnsubscription counterpartWebhookUrl r =
     \<lparr>du_counterpartWebhookUrl = counterpartWebhookUrl, du_success = ur_success r,
      du_message = ur_message r, du_unsubscribedChannels = ur_unsubscribedChannels r,
      du_unsubscriptionResults = ur_unsubscriptionResults r,
      du_remainingChannels = ur_remainingChannels r\<rparr>"

text \<open>Step 6 of the handler: the counterpart URL of an N8N webhook, in either direction.\<close>

definition counterpartWebhookUrl :: "string \<Rightarrow> string option" where
  "counterpartWebhookUrl webhookUrl =
     (if isN8nWebhook webhookUrl then
        (if isTestWebhook webhookUrl then getProductionWebhookUrl webhookUrl
         else if isProductionWebhook webhookUrl then getTestWebhookUrl webhookUrl
         else None)
      else None)"

text \<open>Steps 6 and 7 of the handler, once the channels to unsubscribe are known.\<close>

definition unsubscribe_both ::
  "string list \<Rightarrow> string \<Rightarrow> subscription \<Rightarrow> world \<Rightarrow> (nat \<times> unsubscribe_body) \<times> world" where
  "unsubscribe_both channelsToUnsubscribe webhookUrl subscription w =
     (let isN8n = isN8nWebhook webhookUrl;
          counterpart = counterpartWebhookUrl webhookUrl
      in case processUnsubscription channelsToUnsubscribe webhookUrl subscription w of
           (mainUnsubscriptionResult, w1) \<Rightarrow>
           (case counterpart of
              Some cp \<Rightarrow>
                if isN8n \<and> cp \<noteq> [] then
                  (case findSubscriptionByWebhook cp w1 of
                     (Some counterpartSubscription, w2) \<Rightarrow>
                       (case processUnsubscription
                               (filter (\<lambda>id. id \<in> set (sub_channelIds counterpartSubscription))
                                  channelsToUnsubscribe)
                               cp counterpartSubscription w2 of
                          (counterpartUnsubscriptionResult, w3) \<Rightarrow>
                            ((200, UnsubscribeOk mainUnsubscriptionResult
                                     (Some (dualUnsubscription cp counterpartUnsubscriptionResult))),
                             w3))
                   | (None, w2) \<Rightarrow> ((200, UnsubscribeOk mainUnsubscriptionResult None), w2))
                else ((200, UnsubscribeOk mainUnsubscriptionResult None), w1)
            | None \<Rightarrow> ((200, UnsubscribeOk mainUnsubscriptionResult None), w1)))"

definition unsubscribe_handler ::
  "platform \<Rightarrow> unsubscribe_request \<Rightarrow> world \<Rightarrow> (nat \<times> unsubscribe_body) \<times> world" where
  "unsubscribe_handler P rq w =
     (if uq_method rq \<noteq> ''POST''
        then ((405, UnsubscribeError ''Method not allowed. Please use POST.'' None None None), w)
      else case uq_webhookUrl rq of
        None \<Rightarrow> ((400, UnsubscribeError ''webhookUrl must be a valid URL'' None None None), w)
      | Some webhookUrl \<Rightarrow>
        if webhookUrl = [] \<or> \<not> isValidUrl P webhookUrl
          then ((400, UnsubscribeError ''webhookUrl must be a valid URL'' None None None), w)
        else
          (case findSubscriptionByWebhook webhookUrl w of
             (None, w1) \<Rightarrow>
               ((404, UnsubscribeError ''No subscription found for the provided webhook URL''
                        (Some webhookUrl) None None), w1)
           | (Some subscription, w1) \<Rightarrow>
               if uq_allChannels rq = Some (JBool True) then
                 unsubscribe_both (sub_channelIds subscription) webhookUrl subscription w1
               else
                 (case uq_channelIds rq of
                    Some (JArr (c # cs)) \<Rightarrow>
                      (let invalidChannelIds =
                             filter (\<lambda>id. \<not> isValidYouTubeChannelId id) (c # cs)
                       in if invalidChannelIds \<noteq> [] then
                            ((400, UnsubscribeError
                                     ''One or more channel IDs are not in the correct YouTube format''
                                     None (Some invalidChannelIds) None), w1)
                          else
                            (let channelsToUnsubscribe =
                                   filter (\<lambda>id. id \<in> set (sub_channelIds subscription))
                                     (channel_strings (c # cs))
                             in if channelsToUnsubscribe = [] then
                                  ((400, UnsubscribeError
                                           ''None of the provided channel IDs are in the subscription''
                                           (Some webhookUrl) None
                                           (Some (c # cs, sub_channelIds subscription))), w1)
                                else unsubscribe_both channelsToUnsubscribe webhookUrl
                                       subscription w1))
                  | _ \<Rightarrow>
                      ((400, UnsubscribeError
                               ''You must specify either channelIds (array) or allChannels (true) to unsubscribe''
                               (Some webhookUrl) None None), w1))))"

section \<open>pages/api/websub/[userKey].js\<close>

record websub_request =
  wq_method :: string
  wq_userKey :: string
  wq_mode :: "string option"
  wq_topic :: "string option"
  wq_challenge :: "string option"
  wq_lease_seconds :: "string option"
  wq_body :: string

record forward_result =
  fr_success :: bool
  fr_webhookUrl :: string

record notification_result =
  nr_userKey :: string
  nr_videoId :: "string option"
  nr_channelId :: "string option"
  nr_title :: "string option"
  nr_primaryForwardingResult :: forward_result
  nr_counterpartForwardingResult :: "forward_result option"
  nr_isN8nWebhook :: bool

datatype websub_body =
    WebsubChallenge string
  | WebsubError string
  | WebsubForwarded notification_result

text \<open>\<open>!x\<close> on a query parameter: absent, or present and empty.\<close>

definition falsy :: "string option \<Rightarrow> bool" where
  "falsy x = (case x of None \<Rightarrow> True | Some s \<Rightarrow> s = [])"

definition handleVerification :: "websub_request \<Rightarrow> nat \<times> websub_body" where
  "handleVerification rq =
     (if falsy (wq_mode rq) \<or> falsy (wq_topic rq) \<or> falsy (wq_challenge rq)
        then (400, WebsubError ''Missing required verification parameters'')
      else (case wq_challenge rq of
              Some challenge \<Rightarrow> (200, WebsubChallenge challenge)
            | None \<Rightarrow> (400, WebsubError ''Missing required verification parameters'')))"

text \<open>\<open>x || null\<close> on a field of the feed entry.\<close>

definition or_null :: "string option \<Rightarrow> string option" where
  "or_null x = (if falsy x then None else x)"

definition parseYouTubeNotification :: "platform \<Rightarrow> string \<Rightarrow> video_info option" where
  "parseYouTubeNotification P xmlData =
     (case feed_entry P xmlData of
        None \<Rightarrow> None
      | Some entry \<Rightarrow>
          Some \<lparr>vi_videoId = or_null (vi_videoId entry),
                vi_channelId = or_null (vi_channelId entry),
                vi_title = or_null (vi_title entry),
                vi_link = or_null (vi_link entry),
                vi_author = or_null (vi_author entry),
                vi_published = or_null (vi_published entry),
                vi_updated = or_null (vi_updated entry)\<rparr>)"

text \<open>Lines 241 to 255 of \<open>forwardToWebhook\<close>: the payload, stamped with the time of its dispatch.\<close>

definition webhook_payload :: "video_info \<Rightarrow> timestamp \<Rightarrow> payload" where
  "webhook_payload videoInfo t =
     \<lparr>p_event = ''youtube.video.published'',
      p_video_id = vi_videoId videoInfo,
      p_video_title = vi_title videoInfo,
      p_video_url = vi_link videoInfo,
      p_video_published_at = vi_published videoInfo,
      p_video_updated_at = vi_updated videoInfo,
      p_channel_id = vi_channelId videoInfo,
      p_channel_name = vi_author videoInfo,
      p_timestamp = t\<rparr>"

definition forwardToWebhook :: "string \<Rightarrow> video_info \<Rightarrow> world \<Rightarrow> forward_result \<times> world" where
  "forwardToWebhook webhookUrl videoInfo w =
     (case new_date w of (t, w1) \<Rightarrow>
        (let payload = webhook_payload videoInfo t
         in case pop_fault (post_faults w1) of (f, fs) \<Rightarrow>
              (\<lparr>fr_success = \<not> f, fr_webhookUrl = webhookUrl\<rparr>,
               w1\<lparr>post_faults := fs, trace := trace w1 @ [WebhookPost webhookUrl payload]\<rparr>)))"

definition handleNotification ::
  "platform \<Rightarrow> websub_request \<Rightarrow> world \<Rightarrow> (nat \<times> websub_body) \<times> world" where
  "handleNotification P rq w =
     (case parseYouTubeNotification P (wq_body rq) of
        None \<Rightarrow> ((400, WebsubError ''Failed to parse YouTube notification''), w)
      | Some videoInfo \<Rightarrow>
          (case redis_get w of
             (Inl _, w1) \<Rightarrow> ((500, WebsubError ''Error handling notification''), w1)
           | (Inr stored, w1) \<Rightarrow>
               (let allSubscriptions = (case stored of None \<Rightarrow> [] | Some subs \<Rightarrow> subs)
                in case find (\<lambda>sub. sub_userKey sub = wq_userKey rq) allSubscriptions of
                     None \<Rightarrow> ((404, WebsubError ''No subscription found for this userKey''), w1)
                   | Some subscription \<Rightarrow>
                       (let primaryWebhookUrl = sub_webhookUrl subscription
                        in case forwardToWebhook primaryWebhookUrl videoInfo w1 of
                             (forwardingResult, w2) \<Rightarrow>
                             (let isN8n =
                                    (primaryWebhookUrl \<noteq> []
                                     \<and> (str_includes primaryWebhookUrl ''webhook-test''
                                          \<or> str_includes primaryWebhookUrl ''webhook''))
                              in if isN8n then
                                   (let counterpart =
                                          (if str_includes primaryWebhookUrl ''webhook-test''
                                           then str_replace primaryWebhookUrl
                                                  ''webhook-test'' ''webhook''
                                           else str_replace primaryWebhookUrl
                                                  ''webhook'' ''webhook-test'')
                                    in case forwardToWebhook counterpart videoInfo w2 of
                                         (counterpartForwardingResult, w3) \<Rightarrow>
                                           ((200, WebsubForwarded
                                              \<lparr>nr_userKey = wq_userKey rq,
                                               nr_videoId = vi_videoId videoInfo,
                                               nr_channelId = vi_channelId videoInfo,
                                               nr_title = vi_title videoInfo,
                                               nr_primaryForwardingResult = forwardingResult,
                                               nr_counterpartForwardingResult =
                                                 Some counterpartForwardingResult,
                                               nr_isN8nWebhook = isN8n\<rparr>), w3))
                                 else
                                   ((200, WebsubForwarded
                                      \<lparr>nr_userKey = wq_userKey rq,
                                       nr_videoId = vi_videoId videoInfo,
                                       nr_channelId = vi_channelId videoInfo,
                                       nr_title = vi_title videoInfo,
                                       nr_primaryForwardingResult = forwardingResult,
                                       nr_counterpartForwardingResult = None,
                                       nr_isN8nWebhook = isN8n\<rparr>), w2))))))"

definition websub_handler ::
  "platform \<Rightarrow> websub_request \<Rightarrow> world \<Rightarrow> (nat \<times> websub_body) \<times> world" where
  "websub_handler P rq w =
     (if wq_method rq = ''GET'' then (handleVerification rq, w)
      else if wq_method rq = ''POST'' then handleNotification P rq w
      else ((405, WebsubError ''Method not allowed. Please use GET or POST.''), w))"

section \<open>Vocabulary of the properties\<close>

text \<open>The collection that the blob holds (\<open>subscriptions || []\<close>).\<close>

definition store :: "world \<Rightarrow> subscription list" where
  "store w = (case blob w of None \<Rightarrow> [] | Some subs \<Rightarrow> subs)"

text \<open>A world in which no further Redis command throws.\<close>

definition reliable :: "world \<Rightarrow> bool" where
  "reliable w = (get_faults w = [] \<and> set_faults w = [])"

text \<open>\<open>findSubscriptionByWebhook\<close> on a collection in hand.\<close>

definition lookup :: "string \<Rightarrow> subscription list \<Rightarrow> subscription option" where
  "lookup webhookUrl subs = find (\<lambda>s. sub_webhookUrl s = webhookUrl) subs"

text \<open>
  What the next read of the store hands to the program: the collection, or the empty
  collection that \<open>getSubscriptions\<close> makes of a read that throws.
\<close>

definition visible :: "world \<Rightarrow> subscription list" where
  "visible w = (if fst (pop_fault (get_faults w)) then [] else store w)"

text \<open>The channel ids of the record a lookup returned, none for no record.\<close>

definition record_channels :: "subscription option \<Rightarrow> string set" where
  "record_channels e = (case e of None \<Rightarrow> {} | Some r \<Rightarrow> set (sub_channelIds r))"

text \<open>A world in which no further Redis read throws.\<close>

definition readable :: "world \<Rightarrow> bool" where
  "readable w = (get_faults w = [])"

text \<open>
  Every record carries the key that \<open>generateUserKey\<close> derives from its URL, as every
  record that \<open>processSubscription\<close> creates does.
\<close>

definition keys_from_urls :: "platform \<Rightarrow> subscription list \<Rightarrow> bool" where
  "keys_from_urls P subs = list_all (\<lambda>s. sub_userKey s = generateUserKey P (sub_webhookUrl s)) subs"

text \<open>No two of the given URLs share a user key.\<close>

definition keys_distinct :: "platform \<Rightarrow> string list \<Rightarrow> bool" where
  "keys_distinct P urls = inj_on (generateUserKey P) (set urls)"

text \<open>The URLs other than the given ones keep their records, in order.\<close>

definition untouched :: "string list \<Rightarrow> subscription list \<Rightarrow> subscription list" where
  "untouched urls subs = filter (\<lambda>s. sub_webhookUrl s \<notin> set urls) subs"

text \<open>
  What a write for one URL keeps: the records of the other URLs, the keys derived from
  the URLs, and no URL in the collection but the old ones and its own.
\<close>

definition frame_kept ::
  "platform \<Rightarrow> string list \<Rightarrow> string \<Rightarrow> subscription list \<Rightarrow> subscription list \<Rightarrow> bool" where
  "frame_kept P urls url subs subs' =
     (untouched urls subs' = untouched urls subs
      \<and> keys_from_urls P subs'
      \<and> set (map sub_webhookUrl subs') \<subseteq> insert url (set (map sub_webhookUrl subs)))"

text \<open>A requested URL with its mirrored counterpart, when it has one.\<close>

definition with_counterpart :: "string \<Rightarrow> string option \<Rightarrow> string list" where
  "with_counterpart url c = url # (case c of None \<Rightarrow> [] | Some p \<Rightarrow> [p])"

text \<open>What the next \<open>n\<close> calls of one kind will do, read off their list of failures.\<close>

fun next_faults :: "nat \<Rightarrow> bool list \<Rightarrow> bool list" where
  "next_faults 0 fs = []"
| "next_faults (Suc n) fs = fst (pop_fault fs) # next_faults n (snd (pop_fault fs))"

text \<open>
  The decision table of the specification, section 4.5 step 5, over: an existing record,
  a non-empty newly subscribed set, a non-empty renewed set. A combination without a
  row has no message.
\<close>

definition spec_decision_table :: "bool \<Rightarrow> bool \<Rightarrow> bool \<Rightarrow> string option" where
  "spec_decision_table existing newly renewed =
     (if \<not> existing then Some ''Subscribed successfully''
      else if newly \<and> renewed
        then Some ''Subscription updated with new channels and existing channels resubscribed''
      else if newly \<and> \<not> renewed then Some ''Subscription updated successfully''
      else if \<not> newly \<and> renewed then Some ''All channels have been resubscribed''
      else None)"

section \<open>Example inputs\<close>

text \<open>
  A platform to run the examples on: the digest is replaced by the reversed text, which
  tells the example URLs apart within sixteen characters; a URL parses when it starts
  with \<open>https://\<close>; every non-empty notification body holds one feed entry.
\<close>

definition example_entry :: video_info where
  "example_entry =
     \<lparr>vi_videoId = Some ''dQw4w9WgXcQ'', vi_channelId = Some ''UC_x5XG1OV2P6uZZ5FSM9Ttw'',
      vi_title = Some ''New video'', vi_link = Some ''https://www.youtube.com/watch?v=dQw4w9WgXcQ'',
      vi_author = Some ''Channel'', vi_published = Some ''2025-01-01T00:00:00+00:00'',
      vi_updated = Some ''2025-01-01T00:00:00+00:00''\<rparr>"

definition example_platform :: platform where
  "example_platform =
     \<lparr>md5_hex = rev, url_parses = (\<lambda>u. startsWith u ''https://''),
      feed_entry = (\<lambda>body. if body = [] then None else Some example_entry)\<rparr>"

definition example_clock :: "nat \<Rightarrow> timestamp" where
  "example_clock n =
     (if n = 0 then ''2025-01-01T00:00:01.000Z'' else ''2025-01-01T00:00:01.250Z'')"

text \<open>A world over a given collection in which no call fails.\<close>

definition example_world :: "subscription list \<Rightarrow> world" where
  "example_world subs =
     \<lparr>blob = Some subs, get_faults = [], set_faults = [], hub_faults = [], post_faults = [],
      clock = example_clock, tick = 0, trace = []\<rparr>"

definition example_channel :: string where
  "example_channel = ''UC_x5XG1OV2P6uZZ5FSM9Ttw''"

definition other_channel :: string where
  "other_channel = ''UCsvqVGtbbyHaMoevxPAq9Fg''"

definition third_channel :: string where
  "third_channel = ''UCBR8-60-B28hp2BmDPdntcQ''"

definition example_url :: string where
  "example_url = ''https://example.com/hook''"

definition example_test_url :: string where
  "example_test_url = ''https://n8n.example.com/webhook-test/yt''"

definition example_production_url :: string where
  "example_production_url = ''https://n8n.example.com/webhook/yt''"

text \<open>Records as \<open>processSubscription\<close> creates them.\<close>

definition example_record :: subscription where
  "example_record =
     \<lparr>sub_userKey = generateUserKey example_platform example_url,
      sub_channelIds = [example_channel, other_channel],
      sub_webhookUrl = example_url, sub_timestamp = ''2024-12-31T00:00:00.000Z''\<rparr>"

definition example_test_record :: subscription where
  "example_test_record =
     \<lparr>sub_userKey = generateUserKey example_platform example_test_url,
      sub_channelIds = [example_channel],
      sub_webhookUrl = example_test_url, sub_timestamp = ''2024-12-31T00:00:00.000Z''\<rparr>"

definition example_production_record :: subscription where
  "example_production_record =
     \<lparr>sub_userKey = generateUserKey example_platform example_production_url,
      sub_channelIds = [example_channel],
      sub_webhookUrl = example_production_url, sub_timestamp = ''2024-12-31T00:00:00.000Z''\<rparr>"

text \<open>Requests to run the examples with.\<close>

definition example_subscribe :: "string \<Rightarrow> subscribe_request" where
  "example_subscribe url =
     \<lparr>sq_method = ''POST'', sq_channelIds = Some (JArr [JStr example_channel]),
      sq_webhookUrl = Some url\<rparr>"

definition example_unsubscribe_all :: "string \<Rightarrow> unsubscribe_request" where
  "example_unsubscribe_all url =
     \<lparr>uq_method = ''POST'', uq_webhookUrl = Some url, uq_channelIds = None,
      uq_allChannels = Some (JBool True)\<rparr>"

definition example_unsubscribe_malformed :: unsubscribe_request where
  "example_unsubscribe_malformed =
     \<lparr>uq_method = ''POST'', uq_webhookUrl = Some example_url,
      uq_channelIds = Some (JArr [JStr ''not-a-channel-id'']), uq_allChannels = None\<rparr>"

definition example_verification :: websub_request where
  "example_verification =
     \<lparr>wq_method = ''GET'', wq_userKey = ''0123456789abcdef'', wq_mode = Some ''subscribe'',
      wq_topic = Some (generateTopicUrl example_channel), wq_challenge = Some ''challenge-1'',
      wq_lease_seconds = Some ''864000'', wq_body = []\<rparr>"

definition example_notification :: websub_request where
  "example_notification =
     \<lparr>wq_method = ''POST'',
      wq_userKey = generateUserKey example_platform example_production_url,
      wq_mode = None, wq_topic = None, wq_challenge = None, wq_lease_seconds = None,
      wq_body = ''<feed><entry/></feed>''\<rparr>"

section \<open>Occurrences of a pattern and the first replacement\<close>

lemma startsWith_prefix: "startsWith s pat = prefix pat s"
  by (metis startsWith_def prefix_def append_eq_conv_conj take_is_prefix)

lemma includes_sublist: "str_includes s pat = sublist pat s"
  by (induction s) (auto simp: startsWith_prefix sublist_Cons_right)


lemma replace_first:
  "str_includes s pat \<Longrightarrow> pat \<noteq> [] \<Longrightarrow>
   \<exists>p q. s = p @ pat @ q \<and> \<not> str_includes (p @ butlast pat) pat \<and> str_replace s pat rep = p @ rep @ q"
proof (induction s)
  case Nil
  then show ?case by simp
next
  case (Cons c cs)
  show ?case
  proof (cases "startsWith (c # cs) pat")
    case True
    then obtain q where q: "c # cs = pat @ q" by (auto simp: startsWith_prefix prefix_def)
    have "\<not> str_includes (butlast pat) pat"
      using Cons.prems(2) by (cases pat) (auto simp: includes_sublist dest!: sublist_length_le)
    moreover have "str_replace (c # cs) pat rep = rep @ drop (length pat) (c # cs)"
      using True by simp
    then have "str_replace (c # cs) pat rep = rep @ q"
      by (simp add: q)
    ultimately show ?thesis using q by (intro exI[of _ "[]"] exI[of _ q]) simp
  next
    case False
    then have "str_includes cs pat" using Cons.prems(1) by simp
    from Cons.IH[OF this Cons.prems(2)] obtain p q where
      pq: "cs = p @ pat @ q" "\<not> str_includes (p @ butlast pat) pat" "str_replace cs pat rep = p @ rep @ q"
      by blast
    have "\<not> startsWith (c # p @ butlast pat) pat"
    proof
      assume "startsWith (c # p @ butlast pat) pat"
      then have "prefix pat (c # p @ butlast pat)" by (simp add: startsWith_prefix)
      moreover have "prefix (c # p @ butlast pat) (c # cs)"
        using pq(1) by (simp add: prefixeq_butlast prefix_def) (metis append_butlast_last_id Cons.prems(2) append.assoc append_Cons append_Nil)
      ultimately have "prefix pat (c # cs)" by (rule prefix_order.trans)
      then show False using False by (simp add: startsWith_prefix)
    qed
    then show ?thesis using pq False
      by (intro exI[of _ "c # p"] exI[of _ q]) simp
  qed
qed


lemma w_only_first:
  assumes "''webhook-test'' = xs1 @ xs2" "xs1 \<noteq> []" "xs2 \<noteq> []"
  shows "hd xs2 \<noteq> CHR ''w''"
proof -
  have "tl ''webhook-test'' = tl xs1 @ xs2" using assms(1,2) by (metis tl_append2)
  then have "hd xs2 \<in> set (tl ''webhook-test'')"
    using assms(3) by (metis Un_iff hd_in_set set_append)
  then show ?thesis by auto
qed

lemma w_only_first_short:
  assumes "''webhook'' = zs @ xs1" "zs \<noteq> []" "xs1 \<noteq> []"
  shows "hd xs1 \<noteq> CHR ''w''"
proof -
  have "tl ''webhook'' = tl zs @ xs1" using assms(1,2) by (metis tl_append2)
  then have "hd xs1 \<in> set (tl ''webhook'')"
    using assms(3) by (metis Un_iff hd_in_set set_append)
  then show ?thesis by auto
qed

lemma prefix_hd_w: "prefix xs2 (''webhook'' @ s) \<Longrightarrow> xs2 \<noteq> [] \<Longrightarrow> hd xs2 = CHR ''w''"
  by (cases xs2) (auto simp: prefix_Cons)

lemma straddle_left:
  assumes "\<not> sublist ''webhook-test'' (p @ ''webhook-tes'')"
  shows "sublist ''webhook-test'' (p @ ''webhook'' @ s) = sublist ''webhook-test'' (''webhook'' @ s)"
proof
  assume "sublist ''webhook-test'' (p @ ''webhook'' @ s)"
  then consider "sublist ''webhook-test'' p" | "sublist ''webhook-test'' (''webhook'' @ s)"
    | xs1 xs2 where "''webhook-test'' = xs1 @ xs2" "suffix xs1 p" "prefix xs2 (''webhook'' @ s)"
    unfolding sublist_append[of _ p] by blast
  then show "sublist ''webhook-test'' (''webhook'' @ s)"
  proof cases
    case 1
    then show ?thesis using assms by (simp add: sublist_append)
  next
    case 2
    then show ?thesis .
  next
    case 3
    show ?thesis
    proof (cases "xs1 = []")
      case True
      then show ?thesis using 3 by (auto intro: prefix_imp_sublist)
    next
      case False
      show ?thesis
      proof (cases "xs2 = []")
        case True
        then have "sublist ''webhook-test'' p" using 3 by (auto intro: suffix_imp_sublist)
        then show ?thesis using assms by (simp add: sublist_append)
      next
        case x2: False
        from w_only_first[OF 3(1) False x2] prefix_hd_w[OF 3(3) x2] show ?thesis by simp
      qed
    qed
  qed
next
  assume "sublist ''webhook-test'' (''webhook'' @ s)"
  then show "sublist ''webhook-test'' (p @ ''webhook'' @ s)"
    by (simp add: sublist_append[of _ p])
qed

lemma straddle_right:
  "sublist ''webhook-test'' (''webhook'' @ s) = (prefix ''-test'' s \<or> sublist ''webhook-test'' s)"
proof
  assume "sublist ''webhook-test'' (''webhook'' @ s)"
  then consider "sublist ''webhook-test'' ''webhook''" | "sublist ''webhook-test'' s"
    | xs1 xs2 where "''webhook-test'' = xs1 @ xs2" "suffix xs1 ''webhook''" "prefix xs2 s"
    unfolding sublist_append[of _ "''webhook''"] by blast
  then show "prefix ''-test'' s \<or> sublist ''webhook-test'' s"
  proof cases
    case 1
    then show ?thesis by (auto dest: sublist_length_le)
  next
    case 2
    then show ?thesis by simp
  next
    case 3
    show ?thesis
    proof (cases "xs1 = []")
      case True
      then show ?thesis using 3 by (auto intro: prefix_imp_sublist)
    next
      case False
      from 3(2) obtain zs where zs: "''webhook'' = zs @ xs1" by (auto simp: suffix_def)
      have hd1: "hd xs1 = CHR ''w''" using 3(1) False by (cases xs1) auto
      have "zs = []" using w_only_first_short[OF zs _ False] hd1 by blast
      then have "xs1 = ''webhook''" using zs by simp
      then have "xs2 = ''-test''" using 3(1) by simp
      then show ?thesis using 3(3) by simp
    qed
  qed
next
  assume "prefix ''-test'' s \<or> sublist ''webhook-test'' s"
  then show "sublist ''webhook-test'' (''webhook'' @ s)"
  proof
    assume "prefix ''-test'' s"
    then obtain t where "s = ''-test'' @ t" by (auto simp: prefix_def)
    then have "''webhook'' @ s = ''webhook-test'' @ t" by simp
    then show ?thesis by (metis sublist_append_rightI)
  next
    assume "sublist ''webhook-test'' s"
    then show ?thesis by (simp add: sublist_Cons_right)
  qed
qed


text \<open>
  Claim C3, as amended. For every URL that contains \<open>webhook-test\<close>,
  \<open>getProductionWebhookUrl\<close> returns the URL with the first occurrence of
  \<open>webhook-test\<close> replaced by \<open>webhook\<close>, the text before and after that occurrence
  unchanged. \<open>isTestWebhook\<close> on the result is false exactly when the text after that
  occurrence neither begins with \<open>-test\<close> nor contains \<open>webhook-test\<close>.
\<close>

theorem production_variant_rewrites_first_occurrence:
  assumes "str_includes url ''webhook-test''"
  shows "\<exists>p s. url = p @ ''webhook-test'' @ s
           \<and> \<not> str_includes (p @ ''webhook-tes'') ''webhook-test''
           \<and> getProductionWebhookUrl url = Some (p @ ''webhook'' @ s)
           \<and> isTestWebhook (p @ ''webhook'' @ s)
               = (startsWith s ''-test'' \<or> str_includes s ''webhook-test'')"
proof -
  from replace_first[OF assms, of "''webhook''"] obtain p s where ps:
    "url = p @ ''webhook-test'' @ s"
    "\<not> str_includes (p @ butlast ''webhook-test'') ''webhook-test''"
    "str_replace url ''webhook-test'' ''webhook'' = p @ ''webhook'' @ s"
    by auto
  have first: "\<not> str_includes (p @ ''webhook-tes'') ''webhook-test''"
    using ps(2) by simp
  have "url \<noteq> []" using ps(1) by simp
  then have prod: "getProductionWebhookUrl url = Some (p @ ''webhook'' @ s)"
    using assms ps(3) by (simp add: getProductionWebhookUrl_def)
  have "isTestWebhook (p @ ''webhook'' @ s) = sublist ''webhook-test'' (p @ ''webhook'' @ s)"
    by (simp add: isTestWebhook_def includes_sublist)
  also have "\<dots> = sublist ''webhook-test'' (''webhook'' @ s)"
    using first by (intro straddle_left) (simp add: includes_sublist)
  also have "\<dots> = (startsWith s ''-test'' \<or> str_includes s ''webhook-test'')"
    by (simp only: straddle_right startsWith_prefix includes_sublist)
  finally show ?thesis using ps(1) first prod by blast
qed

theorem production_variant_rewrites_first_occurrence_witness:
  "str_includes ''https://n8n.example.com/webhook-test/yt'' ''webhook-test''
   \<and> (\<exists>p s. ''https://n8n.example.com/webhook-test/yt'' = p @ ''webhook-test'' @ s
           \<and> \<not> str_includes (p @ ''webhook-tes'') ''webhook-test''
           \<and> getProductionWebhookUrl ''https://n8n.example.com/webhook-test/yt''
               = Some (p @ ''webhook'' @ s)
           \<and> isTestWebhook (p @ ''webhook'' @ s)
               = (startsWith s ''-test'' \<or> str_includes s ''webhook-test''))"
proof -
  have h: "str_includes ''https://n8n.example.com/webhook-test/yt'' ''webhook-test''"
    by (simp add: startsWith_def)
  from production_variant_rewrites_first_occurrence[OF h] h show ?thesis by blast
qed

text \<open>
  Claim C3 as stated fails: a URL with two occurrences keeps the second one, so the
  result is still a test variant.
\<close>

theorem production_variant_still_test_counterexample:
  "str_includes ''https://n8n.example.com/webhook-test/webhook-test/yt'' ''webhook-test''
   \<and> getProductionWebhookUrl ''https://n8n.example.com/webhook-test/webhook-test/yt''
       = Some ''https://n8n.example.com/webhook/webhook-test/yt''
   \<and> isTestWebhook ''https://n8n.example.com/webhook/webhook-test/yt''"
  by (simp add: getProductionWebhookUrl_def isTestWebhook_def startsWith_def)

section \<open>The store under a reliable Redis\<close>

lemma pop_fault_Nil [simp]: "pop_fault [] = (False, [])"
  by (simp add: pop_fault_def)

lemma redis_get_reliable:
  "reliable w \<Longrightarrow> redis_get w = (Inr (blob w), w\<lparr>trace := trace w @ [RedisGet]\<rparr>)"
  by (cases w) (simp add: redis_get_def reliable_def)

lemma redis_set_reliable:
  "reliable w \<Longrightarrow> redis_set v w = (Inr (), w\<lparr>blob := Some v, trace := trace w @ [RedisSet v]\<rparr>)"
  by (cases w) (simp add: redis_set_def reliable_def)

lemma reliable_simps [simp]:
  "reliable (w\<lparr>trace := t\<rparr>) = reliable w"
  "reliable (w\<lparr>blob := b\<rparr>) = reliable w"
  "reliable (w\<lparr>tick := n\<rparr>) = reliable w"
  "reliable (w\<lparr>hub_faults := h\<rparr>) = reliable w"
  "reliable (w\<lparr>post_faults := q\<rparr>) = reliable w"
  by (simp_all add: reliable_def)

lemma store_simps [simp]:
  "store (w\<lparr>trace := t\<rparr>) = store w"
  "store (w\<lparr>blob := Some v\<rparr>) = v"
  "store (w\<lparr>tick := n\<rparr>) = store w"
  "store (w\<lparr>hub_faults := h\<rparr>) = store w"
  "store (w\<lparr>post_faults := q\<rparr>) = store w"
  "store (w\<lparr>get_faults := g\<rparr>) = store w"
  "store (w\<lparr>set_faults := g\<rparr>) = store w"
  by (simp_all add: store_def)

lemma getSubscriptions_reliable:
  "reliable w \<Longrightarrow> getSubscriptions w = (store w, w\<lparr>trace := trace w @ [RedisGet]\<rparr>)"
  by (simp add: getSubscriptions_def redis_get_reliable store_def split: option.splits)

lemma saveSubscriptions_reliable:
  "reliable w \<Longrightarrow> saveSubscriptions v w = (True, w\<lparr>blob := Some v, trace := trace w @ [RedisSet v]\<rparr>)"
  by (simp add: saveSubscriptions_def redis_set_reliable)

lemma findSubscriptionByWebhook_reliable:
  "reliable w \<Longrightarrow>
   findSubscriptionByWebhook url w = (lookup url (store w), w\<lparr>trace := trace w @ [RedisGet]\<rparr>)"
  by (simp add: findSubscriptionByWebhook_def getSubscriptions_reliable lookup_def)

lemma addSubscription_reliable:
  "reliable w \<Longrightarrow>
   addSubscription s w =
     (True, w\<lparr>blob := Some (store w @ [s]),
              trace := trace w @ [RedisGet, RedisSet (store w @ [s])]\<rparr>)"
  by (simp add: addSubscription_def getSubscriptions_reliable saveSubscriptions_reliable)

lemma updateSubscription_reliable:
  "reliable w \<Longrightarrow>
   updateSubscription k u w =
     (case findIndex (\<lambda>s. sub_userKey s = k) (store w) of
        None \<Rightarrow> (False, w\<lparr>trace := trace w @ [RedisGet]\<rparr>)
      | Some i \<Rightarrow> (True, w\<lparr>blob := Some ((store w)[i := u]),
                           trace := trace w @ [RedisGet, RedisSet ((store w)[i := u])]\<rparr>))"
  by (simp add: updateSubscription_def getSubscriptions_reliable saveSubscriptions_reliable
           split: option.splits)

text \<open>Hub requests and clock readings leave Redis alone.\<close>

lemma new_date_fields [simp]:
  "store (snd (new_date w)) = store w"
  "reliable (snd (new_date w)) = reliable w"
  "blob (snd (new_date w)) = blob w"
  by (simp_all add: new_date_def)

lemma hub_post_fields [simp]:
  "store (snd (hub_post rq w)) = store w"
  "reliable (snd (hub_post rq w)) = reliable w"
  "blob (snd (hub_post rq w)) = blob w"
  by (simp_all add: hub_post_def split: prod.splits)

lemma subscribeToChannel_fields [simp]:
  "store (snd (subscribeToChannel c url k l w)) = store w"
  "reliable (snd (subscribeToChannel c url k l w)) = reliable w"
  "blob (snd (subscribeToChannel c url k l w)) = blob w"
  by (simp_all add: subscribeToChannel_def Let_def split_def)

lemma unsubscribeFromChannel_fields [simp]:
  "store (snd (unsubscribeFromChannel c url k w)) = store w"
  "reliable (snd (unsubscribeFromChannel c url k w)) = reliable w"
  "blob (snd (unsubscribeFromChannel c url k w)) = blob w"
  by (simp_all add: unsubscribeFromChannel_def Let_def split_def)

lemma promise_all_fields:
  assumes "\<And>x w. store (snd (f x w)) = store w" "\<And>x w. reliable (snd (f x w)) = reliable w"
    "\<And>x w. blob (snd (f x w)) = blob w"
  shows "store (snd (promise_all f xs w)) = store w"
    "reliable (snd (promise_all f xs w)) = reliable w"
    "blob (snd (promise_all f xs w)) = blob w"
proof -
  show "store (snd (promise_all f xs w)) = store w"
    using assms(1) by (induction xs arbitrary: w) (auto split: prod.splits, metis snd_conv)
  show "reliable (snd (promise_all f xs w)) = reliable w"
    using assms(2) by (induction xs arbitrary: w) (auto split: prod.splits, (metis snd_conv)+)
  show "blob (snd (promise_all f xs w)) = blob w"
    using assms(3) by (induction xs arbitrary: w) (auto split: prod.splits, metis snd_conv)
qed


lemma subscribeToChannels_fields [simp]:
  "store (snd (subscribeToChannels cs url k w)) = store w"
  "reliable (snd (subscribeToChannels cs url k w)) = reliable w"
  "blob (snd (subscribeToChannels cs url k w)) = blob w"
  unfolding subscribeToChannels_def by (rule promise_all_fields; simp)+

lemma unsubscribeAll_fields [simp]:
  "store (snd (promise_all (\<lambda>c. unsubscribeFromChannel c url k) cs w)) = store w"
  "reliable (snd (promise_all (\<lambda>c. unsubscribeFromChannel c url k) cs w)) = reliable w"
  "blob (snd (promise_all (\<lambda>c. unsubscribeFromChannel c url k) cs w)) = blob w"
  by (rule promise_all_fields; simp)+

section \<open>The message of a subscribe result\<close>

lemma getSubscriptions_visible: "fst (getSubscriptions w) = visible w"
  by (simp add: getSubscriptions_def redis_get_def visible_def store_def split_def
        split: option.splits)

lemma findSubscriptionByWebhook_visible:
  "fst (findSubscriptionByWebhook url w) = lookup url (visible w)"
  by (simp add: findSubscriptionByWebhook_def split_def getSubscriptions_visible lookup_def)

lemma visible_readable: "get_faults w = [] \<Longrightarrow> visible w = store w"
  by (simp add: visible_def)

lemma processSubscription_store_split:
  "fst (fst (processSubscription_store P cs url w)) = lookup url (visible w)"
  "fst (snd (snd (snd (fst (processSubscription_store P cs url w))))) =
     filter (\<lambda>id. id \<notin> record_channels (lookup url (visible w))) cs"
  "snd (snd (snd (snd (fst (processSubscription_store P cs url w))))) =
     filter (\<lambda>id. id \<in> record_channels (lookup url (visible w))) cs"
  using findSubscriptionByWebhook_visible[of url w]
  by (auto simp: processSubscription_store_def Let_def split_def record_channels_def
        split: option.splits)

text \<open>
  Claim C6, as amended. For a request with at least one channel, the message of a
  successful subscribe result is the one the decision table gives for: the lookup by
  the webhook URL returned a record (the record the store holds for the URL when the
  lookup's read of the store succeeds, none when that read throws), some requested
  channel is not among that record's channels, some requested channel is among them.
  The result lists exactly those channels as newly subscribed and as resubscribed.
\<close>

theorem message_follows_decision_table:
  assumes "processSubscription P cs url w = (r, w')" and "sr_success r" and "cs \<noteq> []"
  shows "Some (sr_message r) =
           spec_decision_table (lookup url (visible w) \<noteq> None)
             (\<exists>c\<in>set cs. c \<notin> record_channels (lookup url (visible w)))
             (\<exists>c\<in>set cs. c \<in> record_channels (lookup url (visible w)))
       \<and> sr_newlySubscribedChannels r =
           (if \<exists>c\<in>set cs. c \<notin> record_channels (lookup url (visible w))
            then Some (filter (\<lambda>id. id \<notin> record_channels (lookup url (visible w))) cs)
            else None)
       \<and> sr_resubscribedChannels r =
           (if \<exists>c\<in>set cs. c \<in> record_channels (lookup url (visible w))
            then Some (filter (\<lambda>id. id \<in> record_channels (lookup url (visible w))) cs)
            else None)
       \<and> (get_faults w = [] \<longrightarrow> visible w = store w)"
proof -
  let ?held = "record_channels (lookup url (visible w))"
  obtain e k ok newly resub w3 where st:
    "processSubscription_store P cs url w = ((e, k, ok, newly, resub), w3)"
    by (metis prod_cases5 surj_pair)
  have e: "e = lookup url (visible w)"
    and newly: "newly = filter (\<lambda>id. id \<notin> ?held) cs"
    and resub: "resub = filter (\<lambda>id. id \<in> ?held) cs"
    using processSubscription_store_split[of P cs url w] st by simp_all
  have ne: "(newly \<noteq> []) = (\<exists>c\<in>set cs. c \<notin> ?held)" "(resub \<noteq> []) = (\<exists>c\<in>set cs. c \<in> ?held)"
    unfolding newly resub by (simp_all add: filter_empty_conv)
  have some: "(\<exists>c\<in>set cs. c \<notin> ?held) \<or> (\<exists>c\<in>set cs. c \<in> ?held)"
    using assms(3) by (cases cs) auto
  have ok using assms(1,2) st by (auto simp: processSubscription_def split: if_splits)
  then have r: "sr_message r = subscription_message e newly resub"
    "sr_newlySubscribedChannels r = (if newly \<noteq> [] then Some newly else None)"
    "sr_resubscribedChannels r = (if resub \<noteq> [] then Some resub else None)"
    using assms(1) st by (auto simp: processSubscription_def split_def)
  have msg: "Some (sr_message r) = spec_decision_table (e \<noteq> None) (newly \<noteq> []) (resub \<noteq> [])"
    using some ne by (auto simp: r(1) subscription_message_def spec_decision_table_def)
  show ?thesis
    using msg r(2,3) unfolding ne e[symmetric]
    by (simp add: newly[unfolded e[symmetric]] resub[unfolded e[symmetric]] e visible_readable)
qed

section \<open>Verification requests\<close>

text \<open>
  Claim C8. A verification request (GET) in which \<open>hub.mode\<close>, \<open>hub.topic\<close> or
  \<open>hub.challenge\<close> is missing (absent or empty) is answered with status 400 and
  nothing else happens; one that carries all three is answered with status 200 and the
  challenge as the body, whatever the store holds and whatever the user key and the
  topic are, and the world is left as it was.
\<close>

theorem verification_echoes_challenge:
  assumes "wq_method rq = ''GET''"
  shows "(falsy (wq_mode rq) \<or> falsy (wq_topic rq) \<or> falsy (wq_challenge rq) \<longrightarrow>
            websub_handler P rq w =
              ((400, WebsubError ''Missing required verification parameters''), w))
       \<and> (\<forall>m t c. wq_mode rq = Some m \<and> m \<noteq> [] \<and> wq_topic rq = Some t \<and> t \<noteq> []
              \<and> wq_challenge rq = Some c \<and> c \<noteq> [] \<longrightarrow>
            websub_handler P rq w = ((200, WebsubChallenge c), w))"
  using assms by (auto simp: websub_handler_def handleVerification_def falsy_def)

section \<open>Rejections of the unsubscribe endpoint\<close>

lemma getSubscriptions_trace:
  "trace (snd (getSubscriptions w)) = trace w @ [RedisGet]"
  "blob (snd (getSubscriptions w)) = blob w"
  by (auto simp: getSubscriptions_def redis_get_def split: prod.splits sum.splits option.splits)

lemma findSubscriptionByWebhook_trace:
  "trace (snd (findSubscriptionByWebhook url w)) = trace w @ [RedisGet]"
  "blob (snd (findSubscriptionByWebhook url w)) = blob w"
  by (simp_all add: findSubscriptionByWebhook_def split_def getSubscriptions_trace)

text \<open>
  Claim C4, as amended. An unsubscribe request (POST, valid webhook URL, not
  \<open>allChannels\<close>) whose \<open>channelIds\<close> array holds an id that fails the format check
  is rejected after one read of the store, with no write and no hub request: with the
  format error (status 400, listing the ill-formed ids) when the read finds a record
  for the URL, and with the not-found error (status 404) when it finds none.
\<close>

theorem unsubscribe_format_check_follows_lookup:
  assumes "uq_method rq = ''POST''" and "uq_webhookUrl rq = Some url" and "url \<noteq> []"
    and "isValidUrl P url" and "uq_allChannels rq \<noteq> Some (JBool True)"
    and "uq_channelIds rq = Some (JArr ids)"
    and "filter (\<lambda>id. \<not> isValidYouTubeChannelId id) ids \<noteq> []"
  shows "fst (unsubscribe_handler P rq w) =
           (case fst (findSubscriptionByWebhook url w) of
              None \<Rightarrow>
                (404, UnsubscribeError ''No subscription found for the provided webhook URL''
                        (Some url) None None)
            | Some subscription \<Rightarrow>
                (400, UnsubscribeError
                        ''One or more channel IDs are not in the correct YouTube format''
                        None (Some (filter (\<lambda>id. \<not> isValidYouTubeChannelId id) ids)) None))
       \<and> trace (snd (unsubscribe_handler P rq w)) = trace w @ [RedisGet]
       \<and> blob (snd (unsubscribe_handler P rq w)) = blob w"
proof -
  obtain c cs where ids: "ids = c # cs" using assms(7) by (cases ids) auto
  obtain found w1 where f: "findSubscriptionByWebhook url w = (found, w1)" by force
  have w1: "trace w1 = trace w @ [RedisGet]" "blob w1 = blob w"
    using findSubscriptionByWebhook_trace[of url w] f by simp_all
  show ?thesis
  proof (cases found)
    case None
    then show ?thesis using assms f w1 by (simp add: unsubscribe_handler_def)
  next
    case (Some s)
    then show ?thesis using assms f w1 ids by (simp add: unsubscribe_handler_def Let_def)
  qed
qed

section \<open>Hub failures during a subscribe\<close>

lemma promise_all_subscribe_results:
  "map hr_channelId (fst (promise_all (\<lambda>c. subscribeToChannel c url k l) cs w)) = cs
   \<and> map hr_success (fst (promise_all (\<lambda>c. subscribeToChannel c url k l) cs w))
       = map Not (next_faults (length cs) (hub_faults w))
   \<and> trace (snd (promise_all (\<lambda>c. subscribeToChannel c url k l) cs w))
       = trace w @ map (\<lambda>c. HubPost \<lparr>hub_callback = generateCallbackUrl k, hub_mode = ''subscribe'',
                      hub_topic = generateTopicUrl c, hub_verify = ''sync'',
                      hub_lease_seconds = Some l\<rparr>) cs"
proof (induction cs arbitrary: w)
  case Nil
  then show ?case by simp
next
  case (Cons c cs)
  obtain r w1 where s: "subscribeToChannel c url k l w = (r, w1)" by force
  have r: "hr_channelId r = c" "hr_success r = (\<not> fst (pop_fault (hub_faults w)))"
    "hub_faults w1 = snd (pop_fault (hub_faults w))"
    "trace w1 = trace w @ [HubPost \<lparr>hub_callback = generateCallbackUrl k, hub_mode = ''subscribe'',
                      hub_topic = generateTopicUrl c, hub_verify = ''sync'',
                      hub_lease_seconds = Some l\<rparr>]"
    using s by (auto simp: subscribeToChannel_def hub_post_def Let_def split_def)
  show ?case using Cons.IH[of w1] s r by (simp add: split_def)
qed

text \<open>
  Claim C5, as amended. When the store write of a subscribe succeeds, the result has
  \<open>success = true\<close> whatever the hub answers; the outcomes of the hub requests for the
  resubscribed channels are returned in \<open>resubscriptionResults\<close>, one per channel in
  the order of the request, each with the failure or success of its own request; the
  outcomes for the newly subscribed channels are no part of the result. When the store
  write fails, the result is the failure result and no hub request is made. A batch of
  hub requests issues one request per channel, whatever the earlier ones did.
\<close>

theorem subscribe_hub_failures_not_fatal:
  assumes "processSubscription_store P cs url w = ((e, k, ok, newly, resub), w3)"
  shows "(ok \<longrightarrow>
           fst (processSubscription P cs url w) =
             \<lparr>sr_success = True, sr_userKey = Some k,
              sr_message = subscription_message e newly resub, sr_webhookUrl = url,
              sr_newlySubscribedChannels = (if newly \<noteq> [] then Some newly else None),
              sr_resubscribedChannels = (if resub \<noteq> [] then Some resub else None),
              sr_resubscriptionResults =
                (if resub \<noteq> []
                 then Some (fst (subscribeToChannels resub url k
                        (if newly \<noteq> [] then snd (subscribeToChannels newly url k w3) else w3)))
                 else None)\<rparr>)
       \<and> (\<not> ok \<longrightarrow>
           processSubscription P cs url w =
             (\<lparr>sr_success = False, sr_userKey = None,
               sr_message = ''Failed to save/update subscription'', sr_webhookUrl = url,
               sr_newlySubscribedChannels = None, sr_resubscribedChannels = None,
               sr_resubscriptionResults = None\<rparr>, w3))
       \<and> (\<forall>cs' w0. map hr_channelId (fst (subscribeToChannels cs' url k w0)) = cs'
             \<and> map hr_success (fst (subscribeToChannels cs' url k w0))
                 = map Not (next_faults (length cs') (hub_faults w0))
             \<and> trace (snd (subscribeToChannels cs' url k w0))
                 = trace w0 @ map (\<lambda>c. HubPost
                     \<lparr>hub_callback = generateCallbackUrl k, hub_mode = ''subscribe'',
                      hub_topic = generateTopicUrl c, hub_verify = ''sync'',
                      hub_lease_seconds = Some 864000\<rparr>) cs')"
  using assms promise_all_subscribe_results[of url k 864000]
  by (auto simp: processSubscription_def split_def subscribeToChannels_def)

section \<open>Forwarding a notification\<close>

lemma counterpart_inline:
  "counterpartWebhookUrl url =
     (if url \<noteq> [] \<and> (str_includes url ''webhook-test'' \<or> str_includes url ''webhook'')
      then Some (if str_includes url ''webhook-test''
                 then str_replace url ''webhook-test'' ''webhook''
                 else str_replace url ''webhook'' ''webhook-test'')
      else None)"
  by (auto simp: counterpartWebhookUrl_def isN8nWebhook_def isTestWebhook_def
        isProductionWebhook_def getProductionWebhookUrl_def getTestWebhookUrl_def)

lemma forwardToWebhook_eq:
  "forwardToWebhook url vi w =
     (\<lparr>fr_success = \<not> fst (pop_fault (post_faults w)), fr_webhookUrl = url\<rparr>,
      w\<lparr>tick := Suc (tick w), post_faults := snd (pop_fault (post_faults w)),
        trace := trace w @ [WebhookPost url (webhook_payload vi (clock w (tick w)))]\<rparr>)"
  by (simp add: forwardToWebhook_def new_date_def split_def)

text \<open>
  Claim C9, as amended. For a notification that parses and whose user key resolves to
  a record, the payload is POSTed to the record's webhook URL and, whenever that URL
  has a counterpart under the substring convention (in either direction), a payload
  with the same event, video and channel fields is also POSTed to the counterpart,
  whether or not a record exists for it; each payload carries the time of its own
  dispatch. Both posts are made whatever the other one's outcome is, each result
  reports its own post, and the store is left as it was.
\<close>

theorem notification_forwarded_to_both:
  assumes "parseYouTubeNotification P (wq_body rq) = Some vi"
    and "\<not> fst (pop_fault (get_faults w))"
    and "find (\<lambda>s. sub_userKey s = wq_userKey rq) (store w) = Some sub"
  shows "fst (fst (handleNotification P rq w)) = 200
       \<and> trace (snd (handleNotification P rq w)) =
           trace w @ [RedisGet,
                      WebhookPost (sub_webhookUrl sub) (webhook_payload vi (clock w (tick w)))]
             @ (case counterpartWebhookUrl (sub_webhookUrl sub) of
                  None \<Rightarrow> []
                | Some cp \<Rightarrow> [WebhookPost cp (webhook_payload vi (clock w (Suc (tick w))))])
       \<and> blob (snd (handleNotification P rq w)) = blob w
       \<and> (\<exists>r. snd (fst (handleNotification P rq w)) = WebsubForwarded r
            \<and> fr_success (nr_primaryForwardingResult r) = (\<not> fst (pop_fault (post_faults w)))
            \<and> map_option fr_success (nr_counterpartForwardingResult r)
                = map_option (\<lambda>cp. \<not> fst (pop_fault (snd (pop_fault (post_faults w)))))
                    (counterpartWebhookUrl (sub_webhookUrl sub)))"
proof -
  obtain fs where g: "pop_fault (get_faults w) = (False, fs)"
    using assms(2) by (cases "pop_fault (get_faults w)") auto
  have rg: "redis_get w = (Inr (blob w), w\<lparr>get_faults := fs, trace := trace w @ [RedisGet]\<rparr>)"
    by (simp add: redis_get_def g)
  have st: "(case blob w of None \<Rightarrow> [] | Some subs \<Rightarrow> subs) = store w"
    by (simp add: store_def)
  show ?thesis
    using assms(1,3)
    by (simp add: handleNotification_def rg st Let_def forwardToWebhook_eq counterpart_inline)
qed

section \<open>Lookups, updates and filters of the collection\<close>

lemma findIndex_Some: "findIndex p xs = Some j \<Longrightarrow> j < length xs \<and> p (xs ! j)"
  by (induction xs arbitrary: j) (auto split: if_splits)

lemma findIndex_None: "findIndex p xs = None \<longleftrightarrow> (\<forall>x\<in>set xs. \<not> p x)"
  by (induction xs) auto

lemma set_set_spread [simp]: "set (set_spread xs) = set xs"
  by (induction xs rule: set_spread.induct) auto

lemma distinct_set_spread [simp]: "distinct (set_spread xs)"
  by (induction xs rule: set_spread.induct) auto

lemma filter_absent: "a \<notin> set xs \<Longrightarrow> filter (\<lambda>y. y \<noteq> a) xs = xs"
  by (induction xs) auto

lemma set_spread_distinct: "distinct xs \<Longrightarrow> set_spread xs = xs"
  by (induction xs) (auto simp: filter_absent)

lemma set_spread_idem [simp]: "set_spread (set_spread xs) = set_spread xs"
  by (simp add: set_spread_distinct)

lemma lookup_Some: "lookup url subs = Some s \<Longrightarrow> s \<in> set subs \<and> sub_webhookUrl s = url"
  by (auto simp: lookup_def find_Some_iff)

lemma lookup_None: "lookup url subs = None \<longleftrightarrow> (\<forall>s\<in>set subs. sub_webhookUrl s \<noteq> url)"
  by (auto simp: lookup_def find_None_iff)

lemma lookup_append_new:
  "lookup url subs = None \<Longrightarrow> sub_webhookUrl n = url \<Longrightarrow> lookup url (subs @ [n]) = Some n"
  by (induction subs) (auto simp: lookup_def)

lemma lookup_update:
  "lookup url subs = Some s \<Longrightarrow> sub_webhookUrl u = url \<Longrightarrow>
   \<exists>j. findIndex (\<lambda>x. sub_userKey x = sub_userKey s) subs = Some j
        \<and> lookup url (subs[j := u]) = Some u"
proof (induction subs)
  case Nil
  then show ?case by (simp add: lookup_def)
next
  case (Cons x xs)
  show ?case
  proof (cases "sub_webhookUrl x = url")
    case True
    then show ?thesis using Cons.prems by (simp add: lookup_def)
  next
    case False
    then have "lookup url xs = Some s" using Cons.prems(1) by (simp add: lookup_def)
    from Cons.IH[OF this Cons.prems(2)] obtain j where
      j: "findIndex (\<lambda>x. sub_userKey x = sub_userKey s) xs = Some j"
         "lookup url (xs[j := u]) = Some u" by blast
    show ?thesis
    proof (cases "sub_userKey x = sub_userKey s")
      case True
      then show ?thesis using Cons.prems(2) by (simp add: lookup_def)
    next
      case k: False
      then show ?thesis using j False by (simp add: lookup_def)
    qed
  qed
qed

lemma filter_update_outside:
  "j < length xs \<Longrightarrow> \<not> p (xs ! j) \<Longrightarrow> \<not> p u \<Longrightarrow> filter p (xs[j := u]) = filter p xs"
proof (induction xs arbitrary: j)
  case Nil
  then show ?case by simp
next
  case (Cons x xs)
  then show ?case by (cases j) auto
qed

lemma filter_filter_outside:
  "(\<And>x. x \<in> set xs \<Longrightarrow> \<not> q x \<Longrightarrow> \<not> p x) \<Longrightarrow> filter p (filter q xs) = filter p xs"
  by (induction xs) auto

section \<open>The two reconcilers under a reliable Redis\<close>

lemma processSubscription_store_new:
  assumes "reliable w" and "lookup url (store w) = None"
  shows "fst (processSubscription_store P cs url w) = (None, generateUserKey P url, True, cs, [])"
    and "store (snd (processSubscription_store P cs url w)) =
           store w @ [\<lparr>sub_userKey = generateUserKey P url, sub_channelIds = cs,
                       sub_webhookUrl = url, sub_timestamp = clock w (tick w)\<rparr>]"
    and "reliable (snd (processSubscription_store P cs url w))"
  using assms
  by (simp_all add: processSubscription_store_def findSubscriptionByWebhook_reliable
        addSubscription_reliable new_date_def Let_def)

lemma processSubscription_store_existing:
  assumes "reliable w" and "lookup url (store w) = Some e"
    and "findIndex (\<lambda>x. sub_userKey x = sub_userKey e) (store w) = Some j"
  shows "fst (processSubscription_store P cs url w) =
           (Some e, sub_userKey e, True,
            filter (\<lambda>id. id \<notin> set (sub_channelIds e)) cs,
            filter (\<lambda>id. id \<in> set (sub_channelIds e)) cs)"
    and "store (snd (processSubscription_store P cs url w)) =
           (store w)[j := e\<lparr>sub_channelIds :=
                               set_spread (sub_channelIds e
                                 @ filter (\<lambda>id. id \<notin> set (sub_channelIds e)) cs),
                            sub_timestamp := clock w (tick w)\<rparr>]"
    and "reliable (snd (processSubscription_store P cs url w))"
  using assms
  by (simp_all add: processSubscription_store_def findSubscriptionByWebhook_reliable
        updateSubscription_reliable new_date_def Let_def)

lemma processSubscription_world:
  "store (snd (processSubscription P cs url w)) = store (snd (processSubscription_store P cs url w))"
  "reliable (snd (processSubscription P cs url w)) = reliable (snd (processSubscription_store P cs url w))"
  by (simp_all add: processSubscription_def split_def)

lemma processUnsubscription_delete:
  assumes "reliable w" and "filter (\<lambda>id. id \<notin> set cs) (sub_channelIds sub) = []"
  shows "store (snd (processUnsubscription cs url sub w)) =
           filter (\<lambda>s. sub_userKey s \<noteq> sub_userKey sub) (store w)"
    and "reliable (snd (processUnsubscription cs url sub w))"
    and "ur_success (fst (processUnsubscription cs url sub w))"
    and "ur_remainingChannels (fst (processUnsubscription cs url sub w)) = Some []"
  using assms
  by (simp_all add: processUnsubscription_def Let_def split_def getSubscriptions_reliable
        saveSubscriptions_reliable)

lemma promise_all_clock:
  assumes "\<And>x w. clock (snd (f x w)) = clock w" "\<And>x w. tick (snd (f x w)) = tick w"
  shows "clock (snd (promise_all f xs w)) = clock w" "tick (snd (promise_all f xs w)) = tick w"
proof -
  show "clock (snd (promise_all f xs w)) = clock w"
    using assms(1) by (induction xs arbitrary: w) (auto split: prod.splits, metis snd_conv)
  show "tick (snd (promise_all f xs w)) = tick w"
    using assms(2) by (induction xs arbitrary: w) (auto split: prod.splits, metis snd_conv)
qed

lemma unsubscribeFromChannel_clock [simp]:
  "clock (snd (unsubscribeFromChannel c url k w)) = clock w"
  "tick (snd (unsubscribeFromChannel c url k w)) = tick w"
  by (simp_all add: unsubscribeFromChannel_def hub_post_def Let_def split_def)

lemma unsubscribeAll_clock [simp]:
  "clock (snd (promise_all (\<lambda>c. unsubscribeFromChannel c url k) cs w)) = clock w"
  "tick (snd (promise_all (\<lambda>c. unsubscribeFromChannel c url k) cs w)) = tick w"
  by (rule promise_all_clock; simp)+


section \<open>Subscribing twice\<close>

lemma processSubscription_result:
  "fst (processSubscription_store P cs url w) = (e, k, True, newly, resub) \<Longrightarrow>
   sr_success (fst (processSubscription P cs url w))
   \<and> sr_userKey (fst (processSubscription P cs url w)) = Some k
   \<and> sr_newlySubscribedChannels (fst (processSubscription P cs url w))
       = (if newly \<noteq> [] then Some newly else None)
   \<and> sr_resubscribedChannels (fst (processSubscription P cs url w))
       = (if resub \<noteq> [] then Some resub else None)
   \<and> sr_message (fst (processSubscription P cs url w)) = subscription_message e newly resub"
  by (cases "processSubscription_store P cs url w") (simp add: processSubscription_def split_def)

lemma processSubscription_once:
  assumes "reliable w"
  shows "reliable (snd (processSubscription P cs url w))"
    and "sr_success (fst (processSubscription P cs url w))"
    and "\<exists>s. lookup url (store (snd (processSubscription P cs url w))) = Some s
           \<and> sr_userKey (fst (processSubscription P cs url w)) = Some (sub_userKey s)
           \<and> (case lookup url (store w) of
                 None \<Rightarrow> sub_userKey s = generateUserKey P url \<and> sub_channelIds s = cs
                   \<and> sr_newlySubscribedChannels (fst (processSubscription P cs url w))
                       = (if cs \<noteq> [] then Some cs else None)
                   \<and> sr_resubscribedChannels (fst (processSubscription P cs url w)) = None
               | Some e \<Rightarrow> sub_userKey s = sub_userKey e
                   \<and> sub_channelIds s = set_spread (sub_channelIds e
                         @ filter (\<lambda>id. id \<notin> set (sub_channelIds e)) cs)
                   \<and> sr_newlySubscribedChannels (fst (processSubscription P cs url w))
                       = (if filter (\<lambda>id. id \<notin> set (sub_channelIds e)) cs \<noteq> []
                          then Some (filter (\<lambda>id. id \<notin> set (sub_channelIds e)) cs) else None)
                   \<and> sr_resubscribedChannels (fst (processSubscription P cs url w))
                       = (if filter (\<lambda>id. id \<in> set (sub_channelIds e)) cs \<noteq> []
                          then Some (filter (\<lambda>id. id \<in> set (sub_channelIds e)) cs) else None))"
proof -
  let ?n = "\<lparr>sub_userKey = generateUserKey P url, sub_channelIds = cs,
              sub_webhookUrl = url, sub_timestamp = clock w (tick w)\<rparr>"
  show "reliable (snd (processSubscription P cs url w))"
  proof (cases "lookup url (store w)")
    case None
    then show ?thesis using assms
      by (simp add: processSubscription_world processSubscription_store_new)
  next
    case (Some e)
    from lookup_update[OF Some, of e] lookup_Some[OF Some] obtain j where
      "findIndex (\<lambda>x. sub_userKey x = sub_userKey e) (store w) = Some j" by blast
    then show ?thesis using assms Some
      by (simp add: processSubscription_world processSubscription_store_existing)
  qed
  show "sr_success (fst (processSubscription P cs url w))"
  proof (cases "lookup url (store w)")
    case None
    from processSubscription_result[OF processSubscription_store_new(1)[OF assms None]]
    show ?thesis by simp
  next
    case (Some e)
    from lookup_update[OF Some, of e] lookup_Some[OF Some] obtain j where
      j: "findIndex (\<lambda>x. sub_userKey x = sub_userKey e) (store w) = Some j" by blast
    from processSubscription_result[OF processSubscription_store_existing(1)[OF assms Some j]]
    show ?thesis by simp
  qed
  show "\<exists>s. lookup url (store (snd (processSubscription P cs url w))) = Some s
           \<and> sr_userKey (fst (processSubscription P cs url w)) = Some (sub_userKey s)
           \<and> (case lookup url (store w) of
                 None \<Rightarrow> sub_userKey s = generateUserKey P url \<and> sub_channelIds s = cs
                   \<and> sr_newlySubscribedChannels (fst (processSubscription P cs url w))
                       = (if cs \<noteq> [] then Some cs else None)
                   \<and> sr_resubscribedChannels (fst (processSubscription P cs url w)) = None
               | Some e \<Rightarrow> sub_userKey s = sub_userKey e
                   \<and> sub_channelIds s = set_spread (sub_channelIds e
                         @ filter (\<lambda>id. id \<notin> set (sub_channelIds e)) cs)
                   \<and> sr_newlySubscribedChannels (fst (processSubscription P cs url w))
                       = (if filter (\<lambda>id. id \<notin> set (sub_channelIds e)) cs \<noteq> []
                          then Some (filter (\<lambda>id. id \<notin> set (sub_channelIds e)) cs) else None)
                   \<and> sr_resubscribedChannels (fst (processSubscription P cs url w))
                       = (if filter (\<lambda>id. id \<in> set (sub_channelIds e)) cs \<noteq> []
                          then Some (filter (\<lambda>id. id \<in> set (sub_channelIds e)) cs) else None))"
  proof (cases "lookup url (store w)")
    case None
    have "lookup url (store w @ [?n]) = Some ?n"
      by (rule lookup_append_new[OF None]) simp
    then show ?thesis
      using processSubscription_result[OF processSubscription_store_new(1)[OF assms None]]
        processSubscription_store_new(2)[OF assms None] None
      by (simp add: processSubscription_world)
  next
    case (Some e)
    let ?u = "e\<lparr>sub_channelIds := set_spread (sub_channelIds e
                   @ filter (\<lambda>id. id \<notin> set (sub_channelIds e)) cs),
                sub_timestamp := clock w (tick w)\<rparr>"
    have "sub_webhookUrl ?u = url" using lookup_Some[OF Some] by simp
    from lookup_update[OF Some this] obtain j where
      j: "findIndex (\<lambda>x. sub_userKey x = sub_userKey e) (store w) = Some j"
         "lookup url ((store w)[j := ?u]) = Some ?u" by blast
    show ?thesis
      using processSubscription_result[OF processSubscription_store_existing(1)[OF assms Some j(1)]]
        processSubscription_store_existing(2)[OF assms Some j(1)] Some j(2)
      by (simp add: processSubscription_world)
  qed
qed


section \<open>Partial unsubscription\<close>

lemma remaining_empty_iff:
  "(filter (\<lambda>id. id \<notin> set cs) ids = []) = (set ids \<subseteq> set cs)"
  by (auto simp: filter_empty_conv)

lemma processUnsubscription_store:
  assumes "reliable w"
  shows "store (snd (processUnsubscription cs url sub w)) =
           (if filter (\<lambda>id. id \<notin> set cs) (sub_channelIds sub) = []
            then filter (\<lambda>s. sub_userKey s \<noteq> sub_userKey sub) (store w)
            else case findIndex (\<lambda>x. sub_userKey x = sub_userKey sub) (store w) of
                   None \<Rightarrow> store w
                 | Some j \<Rightarrow>
                     (store w)[j := sub\<lparr>sub_channelIds :=
                                          filter (\<lambda>id. id \<notin> set cs) (sub_channelIds sub),
                                        sub_timestamp := clock w (tick w)\<rparr>])"
    and "reliable (snd (processUnsubscription cs url sub w))"
  using assms
  by (simp_all add: processUnsubscription_def Let_def split_def updateSubscription_reliable
        new_date_def getSubscriptions_reliable saveSubscriptions_reliable split: option.splits)


section \<open>Deletion of an emptied record\<close>

lemma keys_from_urls_key:
  "keys_from_urls P subs \<Longrightarrow> s \<in> set subs \<Longrightarrow> sub_userKey s = generateUserKey P (sub_webhookUrl s)"
  by (simp add: keys_from_urls_def list_all_iff)

lemma lookup_after_delete:
  assumes "keys_from_urls P subs" and "lookup url subs = Some sub"
  shows "lookup url (filter (\<lambda>s. sub_userKey s \<noteq> sub_userKey sub) subs) = None"
proof -
  have k: "sub_userKey sub = generateUserKey P url"
    using keys_from_urls_key[OF assms(1)] lookup_Some[OF assms(2)] by auto
  show ?thesis
    using keys_from_urls_key[OF assms(1)] k by (auto simp: lookup_None)
qed

lemma nonempty_after_unsubscribe:
  assumes "reliable w" and "list_all (\<lambda>s. sub_channelIds s \<noteq> []) (store w)"
  shows "list_all (\<lambda>s. sub_channelIds s \<noteq> []) (store (snd (processUnsubscription cs url sub w)))"
proof -
  have upd: "\<And>j u. u \<noteq> [] \<Longrightarrow>
      list_all (\<lambda>s. sub_channelIds s \<noteq> [])
        ((store w)[j := sub\<lparr>sub_channelIds := u, sub_timestamp := clock w (tick w)\<rparr>])"
    using assms(2) by (auto simp: list_all_iff dest!: set_update_subset_insert[THEN subsetD])
  show ?thesis
    using assms(2) upd
    by (auto simp: processUnsubscription_store[OF assms(1)] list_all_iff split: option.splits)
qed

lemma absent_after_unsubscribe:
  assumes "reliable w" and "lookup url (store w) = None" and "sub_webhookUrl sub \<noteq> url"
  shows "lookup url (store (snd (processUnsubscription cs cp sub w))) = None"
proof -
  have upd: "\<And>j u. lookup url ((store w)[j := sub\<lparr>sub_channelIds := u, sub_timestamp := clock w (tick w)\<rparr>]) = None"
    using assms(2,3) by (auto simp: lookup_None dest!: set_update_subset_insert[THEN subsetD])
  show ?thesis
    using assms(2) upd
    by (auto simp: processUnsubscription_store[OF assms(1)] lookup_None split: option.splits)
qed

lemma str_replace_length:
  assumes "str_includes s pat" and "pat \<noteq> []"
  shows "length (str_replace s pat rep) + length pat = length s + length rep"
proof -
  from replace_first[OF assms, of rep] obtain p q where
    "s = p @ pat @ q" "str_replace s pat rep = p @ rep @ q" by blast
  then show ?thesis by simp
qed

lemma counterpart_differs: "counterpartWebhookUrl url = Some cp \<Longrightarrow> cp \<noteq> url"
proof
  assume c: "counterpartWebhookUrl url = Some cp" and eq: "cp = url"
  show False
  proof (cases "str_includes url ''webhook-test''")
    case True
    then have "cp = str_replace url ''webhook-test'' ''webhook''"
      using c by (simp add: counterpart_inline split: if_splits)
    then show False using str_replace_length[OF True, of "''webhook''"] eq by simp
  next
    case False
    then have inc: "str_includes url ''webhook''" and "cp = str_replace url ''webhook'' ''webhook-test''"
      using c by (auto simp: counterpart_inline split: if_splits)
    then show False using str_replace_length[OF inc, of "''webhook-test''"] eq by simp
  qed
qed

lemma unsubscribe_both_absent:
  assumes "reliable w" and "keys_from_urls P (store w)" and "lookup url (store w) = Some sub"
    and "set (sub_channelIds sub) \<subseteq> set cs"
  shows "lookup url (store (snd (unsubscribe_both cs url sub w))) = None"
    and "fst (fst (unsubscribe_both cs url sub w)) = 200"
proof -
  let ?w1 = "snd (processUnsubscription cs url sub w)"
  have e: "filter (\<lambda>id. id \<notin> set cs) (sub_channelIds sub) = []"
    using assms(4) by (simp add: remaining_empty_iff)
  have r1: "reliable ?w1" by (rule processUnsubscription_delete(2)[OF assms(1) e])
  have a1: "lookup url (store ?w1) = None"
    using processUnsubscription_delete(1)[OF assms(1) e] lookup_after_delete[OF assms(2,3)]
    by simp
  show "lookup url (store (snd (unsubscribe_both cs url sub w))) = None"
  proof (cases "counterpartWebhookUrl url")
    case None
    then show ?thesis using a1 by (simp add: unsubscribe_both_def Let_def split_def)
  next
    case (Some cp)
    have ne: "cp \<noteq> url" by (rule counterpart_differs[OF Some])
    show ?thesis
    proof (cases "lookup cp (store ?w1)")
      case None
      then show ?thesis using a1 Some r1
        by (simp add: unsubscribe_both_def Let_def split_def findSubscriptionByWebhook_reliable)
    next
      case (Some csub)
      have "sub_webhookUrl csub \<noteq> url" using lookup_Some[OF Some] ne by simp
      from absent_after_unsubscribe[OF _ _ this, of "?w1\<lparr>trace := trace ?w1 @ [RedisGet]\<rparr>"] a1 r1
      show ?thesis using Some \<open>counterpartWebhookUrl url = Some cp\<close> r1
        by (simp add: unsubscribe_both_def Let_def split_def findSubscriptionByWebhook_reliable)
    qed
  qed
  show "fst (fst (unsubscribe_both cs url sub w)) = 200"
    by (simp add: unsubscribe_both_def Let_def split_def split: option.splits)
qed

lemma nonempty_after_unsubscribe_both:
  assumes "reliable w" and "list_all (\<lambda>s. sub_channelIds s \<noteq> []) (store w)"
  shows "list_all (\<lambda>s. sub_channelIds s \<noteq> []) (store (snd (unsubscribe_both cs url sub w)))"
proof -
  let ?w1 = "snd (processUnsubscription cs url sub w)"
  let ?w2 = "?w1\<lparr>trace := trace ?w1 @ [RedisGet]\<rparr>"
  have r1: "reliable ?w1" by (rule processUnsubscription_store(2)[OF assms(1)])
  have n1: "list_all (\<lambda>s. sub_channelIds s \<noteq> []) (store ?w1)"
    by (rule nonempty_after_unsubscribe[OF assms])
  have n2: "list_all (\<lambda>s. sub_channelIds s \<noteq> [])
              (store (snd (processUnsubscription cs' cp csub ?w2)))" for cs' cp csub
    using nonempty_after_unsubscribe[of ?w2 cs' cp csub] r1 n1 by simp
  show ?thesis
    using n1 n2 r1
    by (simp add: unsubscribe_both_def Let_def split_def findSubscriptionByWebhook_reliable
          split: option.splits)
qed

lemma nonempty_after_unsubscribe_handler:
  assumes "reliable w" and "list_all (\<lambda>s. sub_channelIds s \<noteq> []) (store w)"
  shows "list_all (\<lambda>s. sub_channelIds s \<noteq> []) (store (snd (unsubscribe_handler P rq w)))"
proof -
  let ?w0 = "w\<lparr>trace := trace w @ [RedisGet]\<rparr>"
  have both: "list_all (\<lambda>s. sub_channelIds s \<noteq> [])
                (store (snd (unsubscribe_both cs url sub ?w0)))" for cs url sub
    using nonempty_after_unsubscribe_both[of ?w0 cs url sub] assms by simp
  show ?thesis
    using assms both
    by (auto simp: unsubscribe_handler_def Let_def findSubscriptionByWebhook_reliable
          split: option.splits jval.splits list.splits)
qed

text \<open>
  Claim C2. With a Redis that does not fail and a collection whose records carry the
  keys derived from their URLs: when the remaining channel ids of the record found for
  a URL are empty, \<open>processUnsubscription\<close> succeeds, filters the record out of the
  collection instead of saving it with an empty array, and a lookup by that URL then
  finds nothing; an unsubscribe request with \<open>allChannels\<close> set to true for that URL
  is answered with status 200, after which a lookup by the URL finds nothing; and neither
  \<open>processUnsubscription\<close> nor any unsubscribe request leaves a record with an empty
  array in a collection that had none.
\<close>

theorem emptied_record_is_deleted:
  assumes "reliable w" and "keys_from_urls P (store w)" and "lookup url (store w) = Some sub"
  shows "(filter (\<lambda>id. id \<notin> set cs) (sub_channelIds sub) = [] \<longrightarrow>
            ur_success (fst (processUnsubscription cs url sub w))
            \<and> store (snd (processUnsubscription cs url sub w))
                = filter (\<lambda>s. sub_userKey s \<noteq> sub_userKey sub) (store w)
            \<and> lookup url (store (snd (processUnsubscription cs url sub w))) = None)
       \<and> (list_all (\<lambda>s. sub_channelIds s \<noteq> []) (store w) \<longrightarrow>
            list_all (\<lambda>s. sub_channelIds s \<noteq> [])
              (store (snd (processUnsubscription cs url sub w))))
       \<and> (uq_method rq = ''POST'' \<and> uq_webhookUrl rq = Some url \<and> url \<noteq> [] \<and> isValidUrl P url
            \<and> uq_allChannels rq = Some (JBool True) \<longrightarrow>
            fst (fst (unsubscribe_handler P rq w)) = 200
            \<and> lookup url (store (snd (unsubscribe_handler P rq w))) = None)
       \<and> (list_all (\<lambda>s. sub_channelIds s \<noteq> []) (store w) \<longrightarrow>
            list_all (\<lambda>s. sub_channelIds s \<noteq> [])
              (store (snd (unsubscribe_handler P rq' w))))"
proof (intro conjI impI)
  assume e: "filter (\<lambda>id. id \<notin> set cs) (sub_channelIds sub) = []"
  show "ur_success (fst (processUnsubscription cs url sub w))"
    by (rule processUnsubscription_delete(3)[OF assms(1) e])
  show "store (snd (processUnsubscription cs url sub w))
          = filter (\<lambda>s. sub_userKey s \<noteq> sub_userKey sub) (store w)"
    by (rule processUnsubscription_delete(1)[OF assms(1) e])
  then show "lookup url (store (snd (processUnsubscription cs url sub w))) = None"
    using lookup_after_delete[OF assms(2,3)] by simp
next
  assume "list_all (\<lambda>s. sub_channelIds s \<noteq> []) (store w)"
  then show "list_all (\<lambda>s. sub_channelIds s \<noteq> []) (store (snd (processUnsubscription cs url sub w)))"
    by (rule nonempty_after_unsubscribe[OF assms(1)])
next
  assume rq: "uq_method rq = ''POST'' \<and> uq_webhookUrl rq = Some url \<and> url \<noteq> [] \<and> isValidUrl P url
            \<and> uq_allChannels rq = Some (JBool True)"
  have u: "url \<noteq> []" using rq by simp
  let ?w0 = "w\<lparr>trace := trace w @ [RedisGet]\<rparr>"
  have h: "unsubscribe_handler P rq w = unsubscribe_both (sub_channelIds sub) url sub ?w0"
    using rq assms(1,3) u
    by (simp add: unsubscribe_handler_def findSubscriptionByWebhook_reliable)
  have "reliable ?w0" "keys_from_urls P (store ?w0)" "lookup url (store ?w0) = Some sub"
    using assms by simp_all
  from unsubscribe_both_absent[OF this, of "sub_channelIds sub"] h
  show "fst (fst (unsubscribe_handler P rq w)) = 200"
    and "lookup url (store (snd (unsubscribe_handler P rq w))) = None"
    by simp_all
next
  assume "list_all (\<lambda>s. sub_channelIds s \<noteq> []) (store w)"
  then show "list_all (\<lambda>s. sub_channelIds s \<noteq> []) (store (snd (unsubscribe_handler P rq' w)))"
    by (rule nonempty_after_unsubscribe_handler[OF assms(1)])
qed

section \<open>The records of other URLs\<close>

lemma keys_distinct_mono:
  "keys_distinct P urls \<Longrightarrow> set urls' \<subseteq> set urls \<Longrightarrow> keys_distinct P urls'"
  by (auto simp: keys_distinct_def intro: inj_on_subset)

lemma key_owner:
  assumes "keys_from_urls P subs" and "keys_distinct P (url # map sub_webhookUrl subs)"
    and "x \<in> set subs" and "sub_userKey x = generateUserKey P url"
  shows "sub_webhookUrl x = url"
proof -
  have "generateUserKey P (sub_webhookUrl x) = generateUserKey P url"
    using keys_from_urls_key[OF assms(1,3)] assms(4) by simp
  moreover have "sub_webhookUrl x \<in> set (url # map sub_webhookUrl subs)"
    "url \<in> set (url # map sub_webhookUrl subs)"
    using assms(3) by auto
  ultimately show ?thesis
    using assms(2) unfolding keys_distinct_def by (meson inj_onD)
qed

lemma keys_from_urls_update:
  "keys_from_urls P subs \<Longrightarrow> sub_userKey u = generateUserKey P (sub_webhookUrl u) \<Longrightarrow>
   keys_from_urls P (subs[j := u])"
  by (auto simp: keys_from_urls_def list_all_iff dest!: set_update_subset_insert[THEN subsetD])

lemma urls_update:
  "set (map sub_webhookUrl (subs[j := u])) \<subseteq> insert (sub_webhookUrl u) (set (map sub_webhookUrl subs))"
  by (auto dest!: set_update_subset_insert[THEN subsetD])

lemma untouched_update:
  assumes "keys_from_urls P subs" and "keys_distinct P (url # map sub_webhookUrl subs)"
    and "findIndex (\<lambda>x. sub_userKey x = generateUserKey P url) subs = Some j"
    and "sub_webhookUrl u = url" and "url \<in> set urls"
  shows "untouched urls (subs[j := u]) = untouched urls subs"
proof -
  from findIndex_Some[OF assms(3)] have j: "j < length subs"
    "sub_userKey (subs ! j) = generateUserKey P url" by simp_all
  have "sub_webhookUrl (subs ! j) = url"
    by (rule key_owner[OF assms(1,2) _ j(2)]) (simp add: j(1))
  then show ?thesis
    unfolding untouched_def using j(1) assms(4,5) by (intro filter_update_outside) simp_all
qed

lemma untouched_delete:
  assumes "keys_from_urls P subs" and "keys_distinct P (url # map sub_webhookUrl subs)"
    and "url \<in> set urls"
  shows "untouched urls (filter (\<lambda>s. sub_userKey s \<noteq> generateUserKey P url) subs)
           = untouched urls subs"
  unfolding untouched_def
  using key_owner[OF assms(1,2)] assms(3) by (intro filter_filter_outside) auto

text \<open>Reads that do not throw, whatever the writes do.\<close>

lemma readable_simps [simp]:
  "readable (w\<lparr>trace := t\<rparr>) = readable w"
  "readable (w\<lparr>blob := b\<rparr>) = readable w"
  "readable (w\<lparr>tick := n\<rparr>) = readable w"
  "readable (w\<lparr>hub_faults := h\<rparr>) = readable w"
  "readable (w\<lparr>post_faults := q\<rparr>) = readable w"
  "readable (w\<lparr>set_faults := q\<rparr>) = readable w"
  by (simp_all add: readable_def)

lemma redis_get_readable:
  "readable w \<Longrightarrow> redis_get w = (Inr (blob w), w\<lparr>trace := trace w @ [RedisGet]\<rparr>)"
  by (cases w) (simp add: redis_get_def readable_def)

lemma getSubscriptions_readable:
  "readable w \<Longrightarrow> getSubscriptions w = (store w, w\<lparr>trace := trace w @ [RedisGet]\<rparr>)"
  by (simp add: getSubscriptions_def redis_get_readable store_def split: option.splits)

lemma findSubscriptionByWebhook_readable:
  "readable w \<Longrightarrow>
   findSubscriptionByWebhook url w = (lookup url (store w), w\<lparr>trace := trace w @ [RedisGet]\<rparr>)"
  by (simp add: findSubscriptionByWebhook_def getSubscriptions_readable lookup_def)

lemma saveSubscriptions_store:
  "store (snd (saveSubscriptions v w)) = v \<or> store (snd (saveSubscriptions v w)) = store w"
  "readable (snd (saveSubscriptions v w)) = readable w"
  by (auto simp: saveSubscriptions_def redis_set_def split_def readable_def store_def)

lemma readable_fields [simp]:
  "readable (snd (new_date w)) = readable w"
  "readable (snd (hub_post rq w)) = readable w"
  "readable (snd (subscribeToChannel c url k l w)) = readable w"
  "readable (snd (unsubscribeFromChannel c url k w)) = readable w"
  by (simp_all add: new_date_def hub_post_def subscribeToChannel_def unsubscribeFromChannel_def
        Let_def split_def)

lemma promise_all_readable:
  assumes "\<And>x w. readable (snd (f x w)) = readable w"
  shows "readable (snd (promise_all f xs w)) = readable w"
  using assms by (induction xs arbitrary: w) (auto split: prod.splits, (metis snd_conv)+)

lemma batch_readable [simp]:
  "readable (snd (subscribeToChannels cs url k w)) = readable w"
  "readable (snd (promise_all (\<lambda>c. unsubscribeFromChannel c url k) cs w)) = readable w"
  unfolding subscribeToChannels_def by (rule promise_all_readable; simp)+

lemma addSubscription_readable:
  assumes "readable w"
  shows "store (snd (addSubscription s w)) = store w
       \<or> store (snd (addSubscription s w)) = store w @ [s]"
    and "readable (snd (addSubscription s w))"
  using assms saveSubscriptions_store[of "store w @ [s]" "w\<lparr>trace := trace w @ [RedisGet]\<rparr>"]
  by (auto simp: addSubscription_def getSubscriptions_readable)

lemma updateSubscription_readable:
  assumes "readable w"
  shows "store (snd (updateSubscription k u w)) = store w
       \<or> (\<exists>j. findIndex (\<lambda>s. sub_userKey s = k) (store w) = Some j
              \<and> store (snd (updateSubscription k u w)) = (store w)[j := u])"
    and "readable (snd (updateSubscription k u w))"
proof -
  let ?w0 = "w\<lparr>trace := trace w @ [RedisGet]\<rparr>"
  show "store (snd (updateSubscription k u w)) = store w
       \<or> (\<exists>j. findIndex (\<lambda>s. sub_userKey s = k) (store w) = Some j
              \<and> store (snd (updateSubscription k u w)) = (store w)[j := u])"
  proof (cases "findIndex (\<lambda>s. sub_userKey s = k) (store w)")
    case None
    then show ?thesis using assms by (simp add: updateSubscription_def getSubscriptions_readable)
  next
    case (Some j)
    then show ?thesis
      using assms saveSubscriptions_store(1)[of "(store w)[j := u]" ?w0]
      by (auto simp: updateSubscription_def getSubscriptions_readable)
  qed
  show "readable (snd (updateSubscription k u w))"
    using assms
    by (simp add: updateSubscription_def getSubscriptions_readable saveSubscriptions_store(2)
          split: option.splits)
qed

lemma processSubscription_world_readable:
  "readable (snd (processSubscription P cs url w))
     = readable (snd (processSubscription_store P cs url w))"
  by (simp add: processSubscription_def split_def)

lemma processSubscription_store_readable:
  assumes "readable w"
  shows "store (snd (processSubscription_store P cs url w)) = store w
       \<or> (case lookup url (store w) of
             None \<Rightarrow> \<exists>t. store (snd (processSubscription_store P cs url w))
                   = store w @ [\<lparr>sub_userKey = generateUserKey P url, sub_channelIds = cs,
                                 sub_webhookUrl = url, sub_timestamp = t\<rparr>]
           | Some e \<Rightarrow> \<exists>j ids t. findIndex (\<lambda>s. sub_userKey s = sub_userKey e) (store w) = Some j
                   \<and> store (snd (processSubscription_store P cs url w))
                       = (store w)[j := e\<lparr>sub_channelIds := ids, sub_timestamp := t\<rparr>])"
    and "readable (snd (processSubscription_store P cs url w))"
proof -
  let ?w0 = "w\<lparr>trace := trace w @ [RedisGet]\<rparr>"
  let ?w1 = "snd (new_date ?w0)"
  have r1: "readable ?w1" using assms by simp
  have s1: "store ?w1 = store w" by simp
  show "store (snd (processSubscription_store P cs url w)) = store w
       \<or> (case lookup url (store w) of
             None \<Rightarrow> \<exists>t. store (snd (processSubscription_store P cs url w))
                   = store w @ [\<lparr>sub_userKey = generateUserKey P url, sub_channelIds = cs,
                                 sub_webhookUrl = url, sub_timestamp = t\<rparr>]
           | Some e \<Rightarrow> \<exists>j ids t. findIndex (\<lambda>s. sub_userKey s = sub_userKey e) (store w) = Some j
                   \<and> store (snd (processSubscription_store P cs url w))
                       = (store w)[j := e\<lparr>sub_channelIds := ids, sub_timestamp := t\<rparr>])"
  proof (cases "lookup url (store w)")
    case None
    show ?thesis
      using addSubscription_readable(1)[OF r1] None assms
      by (auto simp: processSubscription_store_def findSubscriptionByWebhook_readable Let_def
            split_def s1)
  next
    case (Some e)
    show ?thesis
      using updateSubscription_readable(1)[OF r1] Some assms
      by (fastforce simp: processSubscription_store_def findSubscriptionByWebhook_readable Let_def
            split_def s1)
  qed
  show "readable (snd (processSubscription_store P cs url w))"
    using assms addSubscription_readable(2)[OF r1] updateSubscription_readable(2)[OF r1]
    by (simp add: processSubscription_store_def findSubscriptionByWebhook_readable Let_def
          split_def split: option.splits)
qed

text \<open>One reconciliation touches the records of its own URL only.\<close>

lemma frame_kept_same: "keys_from_urls P subs \<Longrightarrow> frame_kept P urls url subs subs"
  by (auto simp: frame_kept_def)

lemma frame_kept_append:
  assumes "keys_from_urls P subs" and "url \<in> set urls"
    and "sub_userKey n = generateUserKey P url" and "sub_webhookUrl n = url"
  shows "frame_kept P urls url subs (subs @ [n])"
  using assms by (auto simp: frame_kept_def untouched_def keys_from_urls_def)

lemma frame_kept_update:
  assumes "keys_from_urls P subs" and "keys_distinct P (url # map sub_webhookUrl subs)"
    and "url \<in> set urls"
    and "findIndex (\<lambda>x. sub_userKey x = generateUserKey P url) subs = Some j"
    and "sub_userKey u = generateUserKey P url" and "sub_webhookUrl u = url"
  shows "frame_kept P urls url subs (subs[j := u])"
  unfolding frame_kept_def
proof (intro conjI)
  show "untouched urls (subs[j := u]) = untouched urls subs"
    by (rule untouched_update[OF assms(1,2,4,6,3)])
  show "keys_from_urls P (subs[j := u])"
    by (rule keys_from_urls_update[OF assms(1)]) (simp add: assms(5,6))
  show "set (map sub_webhookUrl (subs[j := u])) \<subseteq> insert url (set (map sub_webhookUrl subs))"
    using urls_update[of subs j u] by (simp add: assms(6))
qed

lemma frame_kept_delete:
  assumes "keys_from_urls P subs" and "keys_distinct P (url # map sub_webhookUrl subs)"
    and "url \<in> set urls"
  shows "frame_kept P urls url subs (filter (\<lambda>s. sub_userKey s \<noteq> generateUserKey P url) subs)"
  using untouched_delete[OF assms] assms(1)
  by (auto simp: frame_kept_def keys_from_urls_def list_all_iff)

lemma processSubscription_keeps_frame:
  assumes "readable w" and "keys_from_urls P (store w)"
    and "keys_distinct P (url # map sub_webhookUrl (store w))" and "url \<in> set urls"
  shows "frame_kept P urls url (store w) (store (snd (processSubscription P cs url w)))"
    and "readable (snd (processSubscription P cs url w))"
proof -
  let ?s' = "store (snd (processSubscription_store P cs url w))"
  have "frame_kept P urls url (store w) ?s'"
  proof (cases "lookup url (store w)")
    case None
    then show ?thesis
      using processSubscription_store_readable(1)[OF assms(1), of P cs url]
        frame_kept_same[OF assms(2)] frame_kept_append[OF assms(2,4)]
      by auto
  next
    case (Some e)
    have e: "e \<in> set (store w)" "sub_webhookUrl e = url" using lookup_Some[OF Some] by simp_all
    have ke: "sub_userKey e = generateUserKey P url"
      using keys_from_urls_key[OF assms(2) e(1)] e(2) by simp
    from processSubscription_store_readable(1)[OF assms(1), of P cs url] Some
    consider "?s' = store w"
      | j ids t where "findIndex (\<lambda>s. sub_userKey s = generateUserKey P url) (store w) = Some j"
          "?s' = (store w)[j := e\<lparr>sub_channelIds := ids, sub_timestamp := t\<rparr>]"
      by (auto simp: ke)
    then show ?thesis
    proof cases
      case 1
      then show ?thesis using frame_kept_same[OF assms(2)] by simp
    next
      case 2
      show ?thesis
        unfolding 2(2)
        by (rule frame_kept_update[OF assms(2,3,4) 2(1)]) (simp_all add: ke e(2))
    qed
  qed
  then show "frame_kept P urls url (store w) (store (snd (processSubscription P cs url w)))"
    by (simp add: processSubscription_world)
  show "readable (snd (processSubscription P cs url w))"
    by (simp add: processSubscription_world_readable
          processSubscription_store_readable(2)[OF assms(1)])
qed

lemma processUnsubscription_store_readable:
  assumes "readable w"
  shows "store (snd (processUnsubscription cs url sub w)) = store w
       \<or> store (snd (processUnsubscription cs url sub w))
           = filter (\<lambda>s. sub_userKey s \<noteq> sub_userKey sub) (store w)
       \<or> (\<exists>j ids t. findIndex (\<lambda>s. sub_userKey s = sub_userKey sub) (store w) = Some j
             \<and> store (snd (processUnsubscription cs url sub w))
                 = (store w)[j := sub\<lparr>sub_channelIds := ids, sub_timestamp := t\<rparr>])"
    and "readable (snd (processUnsubscription cs url sub w))"
proof -
  let ?w1 = "snd (promise_all (\<lambda>c. unsubscribeFromChannel c url (sub_userKey sub)) cs w)"
  let ?w2 = "snd (new_date ?w1)"
  let ?w3 = "?w1\<lparr>trace := trace ?w1 @ [RedisGet]\<rparr>"
  have r1: "readable ?w1" "readable ?w2" "readable ?w3" using assms by simp_all
  have s1: "store ?w1 = store w" "store ?w2 = store w" "store ?w3 = store w" by simp_all
  show "store (snd (processUnsubscription cs url sub w)) = store w
       \<or> store (snd (processUnsubscription cs url sub w))
           = filter (\<lambda>s. sub_userKey s \<noteq> sub_userKey sub) (store w)
       \<or> (\<exists>j ids t. findIndex (\<lambda>s. sub_userKey s = sub_userKey sub) (store w) = Some j
             \<and> store (snd (processUnsubscription cs url sub w))
                 = (store w)[j := sub\<lparr>sub_channelIds := ids, sub_timestamp := t\<rparr>])"
  proof (cases "filter (\<lambda>id. id \<notin> set cs) (sub_channelIds sub) = []")
    case True
    then show ?thesis
      using saveSubscriptions_store(1)[of "filter (\<lambda>s. sub_userKey s \<noteq> sub_userKey sub) (store w)" ?w3]
        r1(1)
      by (auto simp: processUnsubscription_def Let_def split_def getSubscriptions_readable s1)
  next
    case False
    then show ?thesis
      using updateSubscription_readable(1)[OF r1(2)]
      by (fastforce simp: processUnsubscription_def Let_def split_def s1)
  qed
  show "readable (snd (processUnsubscription cs url sub w))"
    using r1 updateSubscription_readable(2)[OF r1(2)]
    by (simp add: processUnsubscription_def Let_def split_def getSubscriptions_readable
          saveSubscriptions_store(2))
qed

lemma processUnsubscription_keeps_frame:
  assumes "readable w" and "keys_from_urls P (store w)"
    and "keys_distinct P (url # map sub_webhookUrl (store w))" and "url \<in> set urls"
    and "lookup url (store w) = Some sub"
  shows "frame_kept P urls url (store w) (store (snd (processUnsubscription cs url sub w)))"
proof -
  let ?s' = "store (snd (processUnsubscription cs url sub w))"
  have s: "sub \<in> set (store w)" "sub_webhookUrl sub = url" using lookup_Some[OF assms(5)] by simp_all
  have ks: "sub_userKey sub = generateUserKey P url"
    using keys_from_urls_key[OF assms(2) s(1)] s(2) by simp
  from processUnsubscription_store_readable(1)[OF assms(1), of cs url sub]
  consider "?s' = store w"
    | "?s' = filter (\<lambda>s. sub_userKey s \<noteq> generateUserKey P url) (store w)"
    | j ids t where "findIndex (\<lambda>s. sub_userKey s = generateUserKey P url) (store w) = Some j"
        "?s' = (store w)[j := sub\<lparr>sub_channelIds := ids, sub_timestamp := t\<rparr>]"
    by (auto simp: ks)
  then show ?thesis
  proof cases
    case 1
    then show ?thesis using frame_kept_same[OF assms(2)] by simp
  next
    case 2
    then show ?thesis using frame_kept_delete[OF assms(2,3,4)] by simp
  next
    case 3
    show ?thesis
      unfolding 3(2)
      by (rule frame_kept_update[OF assms(2,3,4) 3(1)]) (simp_all add: ks s(2))
  qed
qed

lemma after_first:
  assumes "keys_distinct P (with_counterpart url (Some p) @ map sub_webhookUrl subs)"
    and "set (map sub_webhookUrl subs') \<subseteq> insert url (set (map sub_webhookUrl subs))"
  shows "keys_distinct P (p # map sub_webhookUrl subs')"
  using assms(2) by (intro keys_distinct_mono[OF assms(1)]) (auto simp: with_counterpart_def)

lemma untouched_subscribe_handler_readable:
  assumes "readable w" and "keys_from_urls P (store w)"
    and "sq_webhookUrl rq = Some url"
    and "keys_distinct P (with_counterpart url (getProductionWebhookUrl url)
                           @ map sub_webhookUrl (store w))"
  shows "untouched (with_counterpart url (getProductionWebhookUrl url))
           (store (snd (subscribe_handler P rq w)))
         = untouched (with_counterpart url (getProductionWebhookUrl url)) (store w)"
proof -
  let ?urls = "with_counterpart url (getProductionWebhookUrl url)"
  let ?w1 = "\<lambda>cs. snd (processSubscription P cs url w)"
  have d1: "keys_distinct P (url # map sub_webhookUrl (store w))"
    by (rule keys_distinct_mono[OF assms(4)]) (auto simp: with_counterpart_def)
  have in1: "url \<in> set ?urls" by (simp add: with_counterpart_def)
  have f1: "frame_kept P ?urls url (store w) (store (?w1 cs))" and r1: "readable (?w1 cs)" for cs
    using processSubscription_keeps_frame[OF assms(1,2) d1 in1] by simp_all
  have first: "untouched ?urls (store (?w1 cs)) = untouched ?urls (store w)" for cs
    using f1[of cs] by (simp add: frame_kept_def)
  have second: "untouched ?urls (store (snd (processSubscription P cs p (?w1 cs))))
                  = untouched ?urls (store w)"
    if p: "getProductionWebhookUrl url = Some p" for cs p
  proof -
    have k1: "keys_from_urls P (store (?w1 cs))"
      and u1: "set (map sub_webhookUrl (store (?w1 cs)))
                 \<subseteq> insert url (set (map sub_webhookUrl (store w)))"
      using f1[of cs] by (simp_all add: frame_kept_def)
    have d2: "keys_distinct P (p # map sub_webhookUrl (store (?w1 cs)))"
      using assms(4) u1 unfolding p by (rule after_first)
    have in2: "p \<in> set ?urls" by (simp add: with_counterpart_def p)
    from processSubscription_keeps_frame(1)[OF r1 k1 d2 in2, of cs] first[of cs]
    show ?thesis by (simp add: frame_kept_def)
  qed
  show ?thesis
    using assms(3) first second
    by (auto simp: subscribe_handler_def Let_def split_def
          split: option.splits jval.splits list.splits)
qed

lemma unsubscribe_both_frame_readable:
  assumes "readable w" and "keys_from_urls P (store w)"
    and "keys_distinct P (with_counterpart url (counterpartWebhookUrl url)
                           @ map sub_webhookUrl (store w))"
    and "lookup url (store w) = Some sub"
  shows "untouched (with_counterpart url (counterpartWebhookUrl url))
           (store (snd (unsubscribe_both cs url sub w)))
         = untouched (with_counterpart url (counterpartWebhookUrl url)) (store w)"
proof -
  let ?urls = "with_counterpart url (counterpartWebhookUrl url)"
  let ?w1 = "snd (processUnsubscription cs url sub w)"
  have d1: "keys_distinct P (url # map sub_webhookUrl (store w))"
    by (rule keys_distinct_mono[OF assms(3)]) (auto simp: with_counterpart_def)
  have in1: "url \<in> set ?urls" by (simp add: with_counterpart_def)
  have f1: "frame_kept P ?urls url (store w) (store ?w1)"
    by (rule processUnsubscription_keeps_frame[OF assms(1,2) d1 in1 assms(4)])
  have r1: "readable ?w1" by (rule processUnsubscription_store_readable(2)[OF assms(1)])
  have first: "untouched ?urls (store ?w1) = untouched ?urls (store w)"
    and k1: "keys_from_urls P (store ?w1)"
    and u1: "set (map sub_webhookUrl (store ?w1)) \<subseteq> insert url (set (map sub_webhookUrl (store w)))"
    using f1 by (simp_all add: frame_kept_def)
  show ?thesis
  proof (cases "counterpartWebhookUrl url")
    case None
    then show ?thesis using first by (simp add: unsubscribe_both_def Let_def split_def)
  next
    case (Some cp)
    let ?w2 = "?w1\<lparr>trace := trace ?w1 @ [RedisGet]\<rparr>"
    show ?thesis
    proof (cases "lookup cp (store ?w1)")
      case None
      then show ?thesis using first Some r1
        by (simp add: unsubscribe_both_def Let_def split_def findSubscriptionByWebhook_readable)
    next
      case csub: (Some csub)
      have d2: "keys_distinct P (cp # map sub_webhookUrl (store ?w2))"
        using u1 by (intro keys_distinct_mono[OF assms(3)]) (auto simp: with_counterpart_def Some)
      have in2: "cp \<in> set ?urls" by (simp add: with_counterpart_def Some)
      have "untouched ?urls (store (snd (processUnsubscription cs' cp csub ?w2)))
              = untouched ?urls (store w)" for cs'
        using processUnsubscription_keeps_frame[OF _ _ d2 in2, of csub cs'] r1 first k1 csub
        by (simp add: frame_kept_def)
      then show ?thesis using first Some r1 csub
        by (simp add: unsubscribe_both_def Let_def split_def findSubscriptionByWebhook_readable)
    qed
  qed
qed

lemma untouched_unsubscribe_handler_readable:
  assumes "readable w" and "keys_from_urls P (store w)"
    and "uq_webhookUrl rq = Some url"
    and "keys_distinct P (with_counterpart url (counterpartWebhookUrl url)
                           @ map sub_webhookUrl (store w))"
  shows "untouched (with_counterpart url (counterpartWebhookUrl url))
           (store (snd (unsubscribe_handler P rq w)))
         = untouched (with_counterpart url (counterpartWebhookUrl url)) (store w)"
proof -
  let ?w0 = "w\<lparr>trace := trace w @ [RedisGet]\<rparr>"
  have both: "\<And>cs sub. lookup url (store w) = Some sub \<Longrightarrow>
      untouched (with_counterpart url (counterpartWebhookUrl url))
          (store (snd (unsubscribe_both cs url sub ?w0)))
        = untouched (with_counterpart url (counterpartWebhookUrl url)) (store w)"
    using unsubscribe_both_frame_readable[of ?w0 P url] assms(1,2,4) by simp
  show ?thesis
    using assms(1,3) both
    by (auto simp: unsubscribe_handler_def Let_def findSubscriptionByWebhook_readable
          split: option.splits jval.splits list.splits)
qed

text \<open>
  Claim C10, as amended. When no Redis read throws (writes may), the records of the
  collection carry the keys derived from their URLs, and no two of the URLs in play
  (the requested one, its counterpart, those of the collection) share a key: a
  subscribe request and an unsubscribe request leave the records of every other URL in
  the collection as they were, in their order. For subscribe the counterpart is the
  production variant of a test URL; for unsubscribe it is the counterpart in either
  direction.
\<close>

theorem other_records_untouched:
  assumes "get_faults w = []" and "keys_from_urls P (store w)"
  shows "(sq_webhookUrl rq = Some url
            \<and> keys_distinct P (with_counterpart url (getProductionWebhookUrl url)
                                 @ map sub_webhookUrl (store w)) \<longrightarrow>
          untouched (with_counterpart url (getProductionWebhookUrl url))
              (store (snd (subscribe_handler P rq w)))
            = untouched (with_counterpart url (getProductionWebhookUrl url)) (store w))
       \<and> (uq_webhookUrl urq = Some url
            \<and> keys_distinct P (with_counterpart url (counterpartWebhookUrl url)
                                 @ map sub_webhookUrl (store w)) \<longrightarrow>
          untouched (with_counterpart url (counterpartWebhookUrl url))
              (store (snd (unsubscribe_handler P urq w)))
            = untouched (with_counterpart url (counterpartWebhookUrl url)) (store w))"
proof -
  have r: "readable w" using assms(1) by (simp add: readable_def)
  show ?thesis
    using untouched_subscribe_handler_readable[OF r assms(2)]
      untouched_unsubscribe_handler_readable[OF r assms(2)]
    by blast
qed

section \<open>The keys of the collection\<close>

text \<open>
  The assumption on the keys made above is an invariant of the collection: it holds of
  the empty collection, and both endpoints keep it (and keep Redis reliable).
\<close>

lemma keys_from_urls_processSubscription:
  assumes "reliable w" and "keys_from_urls P (store w)"
  shows "keys_from_urls P (store (snd (processSubscription P cs url w)))"
proof (cases "lookup url (store w)")
  case None
  show ?thesis
    using assms(2)
    by (simp add: processSubscription_world processSubscription_store_new(2)[OF assms(1) None]
          keys_from_urls_def)
next
  case (Some e)
  have e: "e \<in> set (store w)" "sub_webhookUrl e = url" using lookup_Some[OF Some] by simp_all
  from lookup_update[OF Some, of e] e(2) obtain j where
    j: "findIndex (\<lambda>x. sub_userKey x = sub_userKey e) (store w) = Some j" by blast
  show ?thesis
    using keys_from_urls_key[OF assms(2) e(1)]
    by (simp add: processSubscription_world processSubscription_store_existing(2)[OF assms(1) Some j]
          keys_from_urls_update[OF assms(2)])
qed

lemma keys_from_urls_processUnsubscription:
  assumes "reliable w" and "keys_from_urls P (store w)" and "sub \<in> set (store w)"
  shows "keys_from_urls P (store (snd (processUnsubscription cs url sub w)))"
proof -
  have del: "keys_from_urls P (filter (\<lambda>s. sub_userKey s \<noteq> sub_userKey sub) (store w))"
    using assms(2) by (simp add: keys_from_urls_def list_all_iff)
  show ?thesis
    using assms(2) del keys_from_urls_key[OF assms(2,3)]
    by (simp add: processUnsubscription_store(1)[OF assms(1)] keys_from_urls_update[OF assms(2)]
          split: option.splits)
qed

lemma keys_from_urls_subscribe_handler:
  assumes "reliable w" and "keys_from_urls P (store w)"
  shows "keys_from_urls P (store (snd (subscribe_handler P rq w)))"
    and "reliable (snd (subscribe_handler P rq w))"
proof -
  have one: "keys_from_urls P (store (snd (processSubscription P cs url w)))"
    "reliable (snd (processSubscription P cs url w))" for cs url
    using keys_from_urls_processSubscription[OF assms] processSubscription_once(1)[OF assms(1)]
    by simp_all
  have two: "keys_from_urls P (store (snd (processSubscription P cs' p
                (snd (processSubscription P cs url w)))))"
    "reliable (snd (processSubscription P cs' p (snd (processSubscription P cs url w))))"
    for cs url cs' p
    using keys_from_urls_processSubscription[OF one(2) one(1)]
      processSubscription_once(1)[OF one(2)] by simp_all
  show "keys_from_urls P (store (snd (subscribe_handler P rq w)))"
    using assms(2) one(1) two(1)
    by (auto simp: subscribe_handler_def Let_def split_def
          split: option.splits jval.splits list.splits)
  show "reliable (snd (subscribe_handler P rq w))"
    using assms(1) one(2) two(2)
    by (auto simp: subscribe_handler_def Let_def split_def
          split: option.splits jval.splits list.splits)
qed

lemma keys_from_urls_unsubscribe_both:
  assumes "reliable w" and "keys_from_urls P (store w)" and "sub \<in> set (store w)"
  shows "keys_from_urls P (store (snd (unsubscribe_both cs url sub w)))"
    and "reliable (snd (unsubscribe_both cs url sub w))"
proof -
  let ?w1 = "snd (processUnsubscription cs url sub w)"
  let ?w2 = "?w1\<lparr>trace := trace ?w1 @ [RedisGet]\<rparr>"
  have r1: "reliable ?w1" by (rule processUnsubscription_store(2)[OF assms(1)])
  have k1: "keys_from_urls P (store ?w1)" by (rule keys_from_urls_processUnsubscription[OF assms])
  have k2: "keys_from_urls P (store (snd (processUnsubscription cs' cp csub ?w2)))"
    if "lookup cp (store ?w1) = Some csub" for cs' cp csub
    using keys_from_urls_processUnsubscription[of ?w2 P csub cs' cp] r1 k1 lookup_Some[OF that]
    by simp
  have r2: "reliable (snd (processUnsubscription cs' cp csub ?w2))" for cs' cp csub
    using processUnsubscription_store(2)[of ?w2 cs' cp csub] r1 by simp
  show "keys_from_urls P (store (snd (unsubscribe_both cs url sub w)))"
    using k1 k2 r1
    by (simp add: unsubscribe_both_def Let_def split_def findSubscriptionByWebhook_reliable
          split: option.splits)
  show "reliable (snd (unsubscribe_both cs url sub w))"
    using r1 r2
    by (simp add: unsubscribe_both_def Let_def split_def findSubscriptionByWebhook_reliable
          split: option.splits)
qed

lemma keys_from_urls_unsubscribe_handler:
  assumes "reliable w" and "keys_from_urls P (store w)"
  shows "keys_from_urls P (store (snd (unsubscribe_handler P rq w)))"
    and "reliable (snd (unsubscribe_handler P rq w))"
proof -
  let ?w0 = "w\<lparr>trace := trace w @ [RedisGet]\<rparr>"
  have both: "keys_from_urls P (store (snd (unsubscribe_both cs url sub ?w0)))"
    "reliable (snd (unsubscribe_both cs url sub ?w0))"
    if "lookup url (store w) = Some sub" for cs url sub
    using keys_from_urls_unsubscribe_both[of ?w0 P sub cs url] assms lookup_Some[OF that]
    by simp_all
  show "keys_from_urls P (store (snd (unsubscribe_handler P rq w)))"
    using assms both(1)
    by (auto simp: unsubscribe_handler_def Let_def findSubscriptionByWebhook_reliable
          split: option.splits jval.splits list.splits)
  show "reliable (snd (unsubscribe_handler P rq w))"
    using assms both(2)
    by (auto simp: unsubscribe_handler_def Let_def findSubscriptionByWebhook_reliable
          split: option.splits jval.splits list.splits)
qed

section \<open>The properties on the example inputs\<close>

lemma example_world_simps [simp]:
  "reliable (example_world subs)"
  "store (example_world subs) = subs"
  "clock (example_world subs) = example_clock"
  "tick (example_world subs) = 0"
  "hub_faults (example_world subs) = []"
  "post_faults (example_world subs) = []"
  "get_faults (example_world subs) = []"
  "trace (example_world subs) = []"
  "blob (example_world subs) = Some subs"
  by (simp_all add: reliable_def store_def example_world_def)

lemma example_keys:
  "generateUserKey example_platform example_url = ''kooh/moc.elpmaxe''"
  "generateUserKey example_platform example_test_url = ''ty/tset-koohbew/''"
  "generateUserKey example_platform example_production_url = ''ty/koohbew/moc.e''"
  by (simp_all add: generateUserKey_def example_platform_def example_url_def
        example_test_url_def example_production_url_def)

lemma example_counterparts:
  "getProductionWebhookUrl example_test_url = Some example_production_url"
  "counterpartWebhookUrl example_test_url = Some example_production_url"
  "counterpartWebhookUrl example_production_url = Some example_test_url"
  "counterpartWebhookUrl example_url = None"
  by (simp_all add: counterpart_inline getProductionWebhookUrl_def example_test_url_def
        example_production_url_def example_url_def startsWith_def)

lemma example_held:
  "lookup example_url (visible (example_world [example_record])) = Some example_record"
  "lookup example_url (visible (example_world [])) = None"
  "record_channels (Some example_record) = {example_channel, other_channel}"
  "record_channels None = {}"
  by (simp_all add: visible_def record_channels_def lookup_def example_record_def)

lemma example_channels_differ:
  "example_channel \<noteq> other_channel" "third_channel \<noteq> example_channel"
  "third_channel \<noteq> other_channel"
  by (simp_all add: example_channel_def other_channel_def third_channel_def)

text \<open>The four rows of the table: scenario A of the specification and three requests on a record.\<close>

theorem message_follows_decision_table_witness:
  "sr_message (fst (processSubscription example_platform [example_channel] example_url
                      (example_world []))) = ''Subscribed successfully''
   \<and> sr_message (fst (processSubscription example_platform [third_channel, example_channel]
                        example_url (example_world [example_record])))
       = ''Subscription updated with new channels and existing channels resubscribed''
   \<and> sr_message (fst (processSubscription example_platform [third_channel] example_url
                        (example_world [example_record])))
       = ''Subscription updated successfully''
   \<and> sr_message (fst (processSubscription example_platform [example_channel] example_url
                        (example_world [example_record])))
       = ''All channels have been resubscribed''
   \<and> sr_newlySubscribedChannels
        (fst (processSubscription example_platform [third_channel, example_channel]
                example_url (example_world [example_record]))) = Some [third_channel]
   \<and> sr_resubscribedChannels
        (fst (processSubscription example_platform [third_channel, example_channel]
                example_url (example_world [example_record]))) = Some [example_channel]"
proof -
  have run: "processSubscription example_platform cs example_url w
               = (fst (processSubscription example_platform cs example_url w),
                  snd (processSubscription example_platform cs example_url w))" for cs w
    by simp
  have ok: "sr_success (fst (processSubscription example_platform cs example_url
                               (example_world subs)))" for cs subs
    by (rule processSubscription_once(2)) simp
  note t = message_follows_decision_table[OF run ok]
  from t[of "[example_channel]" "[]"]
  have 1: "sr_message (fst (processSubscription example_platform [example_channel] example_url
                      (example_world []))) = ''Subscribed successfully''"
    by (simp add: example_held spec_decision_table_def)
  from t[of "[third_channel, example_channel]" "[example_record]"]
  have 2: "sr_message (fst (processSubscription example_platform [third_channel, example_channel]
                        example_url (example_world [example_record])))
       = ''Subscription updated with new channels and existing channels resubscribed''"
    "sr_newlySubscribedChannels
        (fst (processSubscription example_platform [third_channel, example_channel]
                example_url (example_world [example_record]))) = Some [third_channel]"
    "sr_resubscribedChannels
        (fst (processSubscription example_platform [third_channel, example_channel]
                example_url (example_world [example_record]))) = Some [example_channel]"
    using example_channels_differ by (simp_all add: example_held spec_decision_table_def)
  from t[of "[third_channel]" "[example_record]"]
  have 3: "sr_message (fst (processSubscription example_platform [third_channel] example_url
                        (example_world [example_record])))
       = ''Subscription updated successfully''"
    using example_channels_differ by (simp add: example_held spec_decision_table_def)
  from t[of "[example_channel]" "[example_record]"]
  have 4: "sr_message (fst (processSubscription example_platform [example_channel] example_url
                        (example_world [example_record])))
       = ''All channels have been resubscribed''"
    using example_channels_differ by (simp add: example_held spec_decision_table_def)
  show ?thesis using 1 2 3 4 by simp
qed

text \<open>
  Claim C6 as stated fails: the store holds a record for the URL with the requested
  channel, the lookup's read throws, and the successful result says
  \<open>Subscribed successfully\<close> where the table's row for an existing record with a
  renewed channel says otherwise.
\<close>

theorem message_after_failed_lookup_counterexample:
  "lookup example_url (store ((example_world [example_record])\<lparr>get_faults := [True]\<rparr>))
     = Some example_record
   \<and> example_channel \<in> set (sub_channelIds example_record)
   \<and> fst (processSubscription example_platform [example_channel] example_url
            ((example_world [example_record])\<lparr>get_faults := [True]\<rparr>))
       = \<lparr>sr_success = True, sr_userKey = Some ''kooh/moc.elpmaxe'',
          sr_message = ''Subscribed successfully'', sr_webhookUrl = example_url,
          sr_newlySubscribedChannels = Some [example_channel],
          sr_resubscribedChannels = None, sr_resubscriptionResults = None\<rparr>
   \<and> spec_decision_table True False True = Some ''All channels have been resubscribed''"
  by (simp add: processSubscription_def processSubscription_store_def
        findSubscriptionByWebhook_def getSubscriptions_def saveSubscriptions_def
        addSubscription_def redis_get_def redis_set_def new_date_def lookup_def
        subscribeToChannels_def subscribeToChannel_def hub_post_def Let_def split_def
        example_keys subscription_message_def pop_fault_def example_world_def store_def
        example_record_def spec_decision_table_def)

text \<open>A complete verification request is echoed; without its challenge it is refused.\<close>

theorem verification_echoes_challenge_witness:
  "wq_method example_verification = ''GET''
   \<and> websub_handler example_platform example_verification (example_world [])
       = ((200, WebsubChallenge ''challenge-1''), example_world [])
   \<and> websub_handler example_platform (example_verification\<lparr>wq_challenge := None\<rparr>) (example_world [])
       = ((400, WebsubError ''Missing required verification parameters''), example_world [])"
proof -
  have g: "wq_method example_verification = ''GET''"
    "wq_method (example_verification\<lparr>wq_challenge := None\<rparr>) = ''GET''"
    by (simp_all add: example_verification_def)
  from verification_echoes_challenge[OF g(1), of example_platform "example_world []"]
  have 1: "websub_handler example_platform example_verification (example_world [])
       = ((200, WebsubChallenge ''challenge-1''), example_world [])"
    by (simp add: example_verification_def generateTopicUrl_def)
  from verification_echoes_challenge[OF g(2), of example_platform "example_world []"]
  have 2: "websub_handler example_platform (example_verification\<lparr>wq_challenge := None\<rparr>) (example_world [])
       = ((400, WebsubError ''Missing required verification parameters''), example_world [])"
    by (simp add: falsy_def)
  show ?thesis using g(1) 1 2 by simp
qed

text \<open>A malformed id in an unsubscribe request, with and without a record for the URL.\<close>

lemma malformed_request:
  "uq_method example_unsubscribe_malformed = ''POST''"
  "uq_webhookUrl example_unsubscribe_malformed = Some example_url"
  "example_url \<noteq> []"
  "isValidUrl example_platform example_url"
  "uq_allChannels example_unsubscribe_malformed \<noteq> Some (JBool True)"
  "uq_channelIds example_unsubscribe_malformed = Some (JArr [JStr ''not-a-channel-id''])"
  "filter (\<lambda>id. \<not> isValidYouTubeChannelId id) [JStr ''not-a-channel-id'']
     = [JStr ''not-a-channel-id'']"
  by (simp_all add: example_unsubscribe_malformed_def example_url_def isValidUrl_def
        example_platform_def startsWith_def)

theorem unsubscribe_format_check_follows_lookup_witness:
  "filter (\<lambda>id. \<not> isValidYouTubeChannelId id) [JStr ''not-a-channel-id''] \<noteq> []
   \<and> fst (unsubscribe_handler example_platform example_unsubscribe_malformed
            (example_world [example_record]))
       = (400, UnsubscribeError ''One or more channel IDs are not in the correct YouTube format''
                 None (Some [JStr ''not-a-channel-id'']) None)
   \<and> trace (snd (unsubscribe_handler example_platform example_unsubscribe_malformed
                   (example_world [example_record]))) = [RedisGet]
   \<and> blob (snd (unsubscribe_handler example_platform example_unsubscribe_malformed
                  (example_world [example_record]))) = Some [example_record]"
proof -
  have bad: "filter (\<lambda>id. \<not> isValidYouTubeChannelId id) [JStr ''not-a-channel-id''] \<noteq> []"
    by (simp add: malformed_request(7))
  have found: "fst (findSubscriptionByWebhook example_url (example_world [example_record]))
                 = Some example_record"
    by (simp add: findSubscriptionByWebhook_reliable lookup_def example_record_def)
  from unsubscribe_format_check_follows_lookup[OF malformed_request(1-6) bad,
         of "example_world [example_record]"] found bad
  show ?thesis by (simp add: malformed_request(7))
qed

text \<open>
  Claim C4 as stated fails: with no record for the URL the store is read and the
  not-found error is returned, although the request holds an ill-formed id.
\<close>

theorem unsubscribe_not_found_before_format_counterexample:
  "\<not> isValidYouTubeChannelId (JStr ''not-a-channel-id'')
   \<and> uq_channelIds example_unsubscribe_malformed = Some (JArr [JStr ''not-a-channel-id''])
   \<and> unsubscribe_handler example_platform example_unsubscribe_malformed (example_world [])
       = ((404, UnsubscribeError ''No subscription found for the provided webhook URL''
                  (Some example_url) None None),
          (example_world [])\<lparr>trace := [RedisGet]\<rparr>)"
  by (simp add: unsubscribe_handler_def malformed_request findSubscriptionByWebhook_reliable
        lookup_def startsWith_def)



text \<open>One of the two channels of a record is unsubscribed.\<close>

lemma example_record_found:
  "lookup example_url (store (example_world [example_record])) = Some example_record"
  by (simp add: lookup_def example_record_def)


text \<open>Scenario D of the specification: both channels of a record are unsubscribed.\<close>

lemma example_keys_from_urls:
  "keys_from_urls example_platform [example_record]"
  "keys_from_urls example_platform [example_record, example_test_record]"
  by (simp_all add: keys_from_urls_def example_record_def example_test_record_def)

theorem emptied_record_is_deleted_witness:
  "reliable (example_world [example_record])
   \<and> keys_from_urls example_platform (store (example_world [example_record]))
   \<and> lookup example_url (store (example_world [example_record])) = Some example_record
   \<and> filter (\<lambda>id. id \<notin> set [example_channel, other_channel]) (sub_channelIds example_record) = []
   \<and> store (snd (processUnsubscription [example_channel, other_channel] example_url
                    example_record (example_world [example_record]))) = []
   \<and> lookup example_url
        (store (snd (processUnsubscription [example_channel, other_channel] example_url
                       example_record (example_world [example_record])))) = None
   \<and> fst (fst (unsubscribe_handler example_platform (example_unsubscribe_all example_url)
                 (example_world [example_record]))) = 200
   \<and> lookup example_url
        (store (snd (unsubscribe_handler example_platform (example_unsubscribe_all example_url)
                       (example_world [example_record])))) = None"
proof -
  have rel: "reliable (example_world [example_record])" by simp
  have keys: "keys_from_urls example_platform (store (example_world [example_record]))"
    by (simp add: example_keys_from_urls)
  have rem: "filter (\<lambda>id. id \<notin> set [example_channel, other_channel])
               (sub_channelIds example_record) = []"
    by (simp add: example_record_def)
  have rq: "uq_method (example_unsubscribe_all example_url) = ''POST''
      \<and> uq_webhookUrl (example_unsubscribe_all example_url) = Some example_url
      \<and> example_url \<noteq> [] \<and> isValidUrl example_platform example_url
      \<and> uq_allChannels (example_unsubscribe_all example_url) = Some (JBool True)"
    by (simp add: example_unsubscribe_all_def example_url_def isValidUrl_def
          example_platform_def startsWith_def)
  from emptied_record_is_deleted[OF rel keys example_record_found,
         of "[example_channel, other_channel]" "example_unsubscribe_all example_url"]
    rem rq rel keys example_record_found
  show ?thesis by (simp add: lookup_def)
qed

text \<open>A hub that refuses the next request, for a new channel and for a renewed one.\<close>

text \<open>
  Claim C5 as stated fails: the hub request for a newly subscribed channel fails (the
  hub's one failure is consumed by the one request made), and the result carries no
  trace of it.
\<close>

theorem subscribe_new_channel_failure_unreported_counterexample:
  "processSubscription example_platform [example_channel] example_url
     ((example_world [])\<lparr>hub_faults := [True]\<rparr>)
   = (\<lparr>sr_success = True, sr_userKey = Some ''kooh/moc.elpmaxe'',
       sr_message = ''Subscribed successfully'', sr_webhookUrl = example_url,
       sr_newlySubscribedChannels = Some [example_channel],
       sr_resubscribedChannels = None, sr_resubscriptionResults = None\<rparr>,
      (example_world [])
        \<lparr>blob := Some [\<lparr>sub_userKey = ''kooh/moc.elpmaxe'', sub_channelIds = [example_channel],
                         sub_webhookUrl = example_url, sub_timestamp = example_clock 0\<rparr>],
         hub_faults := [], tick := 1,
         trace := [RedisGet, RedisGet,
                   RedisSet [\<lparr>sub_userKey = ''kooh/moc.elpmaxe'',
                              sub_channelIds = [example_channel],
                              sub_webhookUrl = example_url, sub_timestamp = example_clock 0\<rparr>],
                   HubPost \<lparr>hub_callback = generateCallbackUrl ''kooh/moc.elpmaxe'',
                            hub_mode = ''subscribe'',
                            hub_topic = generateTopicUrl example_channel,
                            hub_verify = ''sync'', hub_lease_seconds = Some 864000\<rparr>]\<rparr>)
   \<and> fst (hub_post \<lparr>hub_callback = generateCallbackUrl ''kooh/moc.elpmaxe'',
                     hub_mode = ''subscribe'', hub_topic = generateTopicUrl example_channel,
                     hub_verify = ''sync'', hub_lease_seconds = Some 864000\<rparr>
            ((example_world [])\<lparr>hub_faults := [True]\<rparr>)) = False"
  by (simp add: processSubscription_def processSubscription_store_def
        findSubscriptionByWebhook_reliable addSubscription_reliable new_date_def lookup_def
        subscribeToChannels_def subscribeToChannel_def hub_post_def Let_def split_def
        example_keys subscription_message_def pop_fault_def example_world_def reliable_def store_def)

theorem subscribe_hub_failures_not_fatal_witness:
  "fst (processSubscription_store example_platform [example_channel] example_url
          ((example_world [example_record])\<lparr>hub_faults := [True]\<rparr>))
     = (Some example_record, ''kooh/moc.elpmaxe'', True, [], [example_channel])
   \<and> fst (processSubscription example_platform [example_channel] example_url
            ((example_world [example_record])\<lparr>hub_faults := [True]\<rparr>))
     = \<lparr>sr_success = True, sr_userKey = Some ''kooh/moc.elpmaxe'',
        sr_message = ''All channels have been resubscribed'', sr_webhookUrl = example_url,
        sr_newlySubscribedChannels = None,
        sr_resubscribedChannels = Some [example_channel],
        sr_resubscriptionResults =
          Some [\<lparr>hr_success = False, hr_channelId = example_channel,
                  hr_callbackUrl = generateCallbackUrl ''kooh/moc.elpmaxe'',
                  hr_webhookUrl = example_url\<rparr>]\<rparr>"
proof -
  let ?w = "(example_world [example_record])\<lparr>hub_faults := [True]\<rparr>"
  let ?st = "processSubscription_store example_platform [example_channel] example_url ?w"
  have lk: "lookup example_url (store ?w) = Some example_record"
    by (simp add: lookup_def example_record_def)
  have ix: "findIndex (\<lambda>x. sub_userKey x = sub_userKey example_record) (store ?w) = Some 0"
    by simp
  have st: "fst ?st = (Some example_record, ''kooh/moc.elpmaxe'', True, [], [example_channel])"
    using processSubscription_store_existing(1)[OF _ lk ix, of example_platform "[example_channel]"]
    by (simp add: example_record_def example_keys example_channel_def other_channel_def)
  then have run: "?st = ((Some example_record, ''kooh/moc.elpmaxe'', True, [], [example_channel]), snd ?st)"
    by (metis prod.collapse)
  have hub: "hub_faults (snd ?st) = [True]"
    by (simp add: processSubscription_store_def findSubscriptionByWebhook_reliable lk[simplified]
          updateSubscription_reliable new_date_def Let_def)
  have res: "fst (subscribeToChannels [example_channel] example_url ''kooh/moc.elpmaxe'' (snd ?st))
      = [\<lparr>hr_success = False, hr_channelId = example_channel,
                  hr_callbackUrl = generateCallbackUrl ''kooh/moc.elpmaxe'',
                  hr_webhookUrl = example_url\<rparr>]"
    by (simp add: subscribeToChannels_def subscribeToChannel_def hub_post_def hub Let_def
          pop_fault_def)
  from subscribe_hub_failures_not_fatal[OF run] res st
  show ?thesis by (simp add: subscription_message_def)
qed

text \<open>A notification for the production URL of a pair, with a clock that moves between the posts.\<close>

lemma example_notification_parsed:
  "parseYouTubeNotification example_platform (wq_body example_notification) = Some example_entry"
  by (simp add: parseYouTubeNotification_def example_platform_def example_notification_def
        example_entry_def or_null_def falsy_def)

lemma example_notification_owner:
  "find (\<lambda>s. sub_userKey s = wq_userKey example_notification)
     (store (example_world [example_production_record])) = Some example_production_record"
  by (simp add: example_notification_def example_production_record_def)

lemma example_production_record_url:
  "sub_webhookUrl example_production_record = example_production_url"
  by (simp add: example_production_record_def)

theorem notification_forwarded_to_both_witness:
  "parseYouTubeNotification example_platform (wq_body example_notification) = Some example_entry
   \<and> find (\<lambda>s. sub_userKey s = wq_userKey example_notification)
       (store (example_world [example_production_record])) = Some example_production_record
   \<and> fst (fst (handleNotification example_platform example_notification
                 (example_world [example_production_record]))) = 200
   \<and> trace (snd (handleNotification example_platform example_notification
                   (example_world [example_production_record])))
       = [RedisGet,
          WebhookPost example_production_url (webhook_payload example_entry (example_clock 0)),
          WebhookPost example_test_url (webhook_payload example_entry (example_clock 1))]
   \<and> blob (snd (handleNotification example_platform example_notification
                  (example_world [example_production_record])))
       = Some [example_production_record]"
proof -
  have nofault: "\<not> fst (pop_fault (get_faults (example_world [example_production_record])))"
    by simp
  from notification_forwarded_to_both[OF example_notification_parsed nofault
         example_notification_owner]
    example_notification_parsed example_notification_owner
  show ?thesis by (simp add: example_production_record_def example_counterparts)
qed

text \<open>
  Claim C9 as stated fails: the payload posted to the counterpart is stamped with its
  own dispatch time, so it is not the payload posted to the primary URL.
\<close>

theorem notification_payloads_differ_counterexample:
  "trace (snd (handleNotification example_platform example_notification
                 (example_world [example_production_record])))
     = [RedisGet,
        WebhookPost example_production_url
          (webhook_payload example_entry ''2025-01-01T00:00:01.000Z''),
        WebhookPost example_test_url
          (webhook_payload example_entry ''2025-01-01T00:00:01.250Z'')]
   \<and> webhook_payload example_entry ''2025-01-01T00:00:01.000Z''
       \<noteq> webhook_payload example_entry ''2025-01-01T00:00:01.250Z''"
  by (simp add: handleNotification_def example_notification_parsed redis_get_reliable
        example_notification_owner[simplified] example_production_record_url Let_def
        forwardToWebhook_eq example_production_url_def example_test_url_def
        startsWith_def example_clock_def webhook_payload_def)

lemma example_urls_differ:
  "example_url \<noteq> example_test_url" "example_url \<noteq> example_production_url"
  "example_test_url \<noteq> example_production_url"
  by (simp_all add: example_url_def example_test_url_def example_production_url_def)

lemma example_keys_distinct:
  "keys_distinct example_platform
     [example_test_url, example_production_url, example_url, example_test_url]"
  using example_urls_differ
  by (auto simp: keys_distinct_def example_keys)

lemma example_world_readable [simp]: "readable (example_world subs)"
  by (simp add: readable_def)

text \<open>A subscribe whose second write throws, and an unsubscribe, next to a record of another URL.\<close>

theorem other_records_untouched_witness:
  "get_faults ((example_world [example_record, example_test_record])\<lparr>set_faults := [False, True]\<rparr>) = []
   \<and> keys_from_urls example_platform
        (store ((example_world [example_record, example_test_record])\<lparr>set_faults := [False, True]\<rparr>))
   \<and> sq_webhookUrl (example_subscribe example_test_url) = Some example_test_url
   \<and> uq_webhookUrl (example_unsubscribe_all example_test_url) = Some example_test_url
   \<and> keys_distinct example_platform
        (with_counterpart example_test_url (getProductionWebhookUrl example_test_url)
           @ map sub_webhookUrl
               (store ((example_world [example_record, example_test_record])
                         \<lparr>set_faults := [False, True]\<rparr>)))
   \<and> untouched [example_test_url, example_production_url]
        (store (snd (subscribe_handler example_platform (example_subscribe example_test_url)
                       ((example_world [example_record, example_test_record])
                          \<lparr>set_faults := [False, True]\<rparr>))))
       = [example_record]
   \<and> untouched [example_test_url, example_production_url]
        (store (snd (unsubscribe_handler example_platform
                       (example_unsubscribe_all example_test_url)
                       ((example_world [example_record, example_test_record])
                          \<lparr>set_faults := [False, True]\<rparr>))))
       = [example_record]"
proof -
  let ?w = "(example_world [example_record, example_test_record])\<lparr>set_faults := [False, True]\<rparr>"
  have rel: "get_faults ?w = []" by simp
  have keys: "keys_from_urls example_platform (store ?w)"
    by (simp add: example_keys_from_urls)
  have urls: "map sub_webhookUrl (store ?w) = [example_url, example_test_url]"
    by (simp add: example_record_def example_test_record_def)
  have d: "keys_distinct example_platform
        (with_counterpart example_test_url (getProductionWebhookUrl example_test_url)
           @ map sub_webhookUrl (store ?w))"
    "keys_distinct example_platform
        (with_counterpart example_test_url (counterpartWebhookUrl example_test_url)
           @ map sub_webhookUrl (store ?w))"
    using example_keys_distinct
    by (simp_all only: urls example_counterparts with_counterpart_def option.case append.simps)
  have rq: "sq_webhookUrl (example_subscribe example_test_url) = Some example_test_url"
    "uq_webhookUrl (example_unsubscribe_all example_test_url) = Some example_test_url"
    by (simp_all add: example_subscribe_def example_unsubscribe_all_def)
  have before: "untouched [example_test_url, example_production_url] (store ?w) = [example_record]"
    using example_urls_differ
    by (simp add: untouched_def example_record_def example_test_record_def)
  from other_records_untouched[OF rel keys, of "example_subscribe example_test_url"
         example_test_url "example_unsubscribe_all example_test_url"]
    rq d before rel keys
  show ?thesis
    by (simp add: with_counterpart_def example_counterparts)
qed

lemma example_validity:
  "startsWith example_channel ''UC''" "length example_channel = 24"
  "isValidUrl example_platform example_test_url"
  "isTestWebhook example_test_url"
  "example_test_url \<noteq> []" "example_production_url \<noteq> []"
  by (simp_all add: example_channel_def startsWith_def isValidUrl_def example_platform_def
        example_test_url_def example_production_url_def isTestWebhook_def)

text \<open>
  Claim C10 as stated fails: the read inside \<open>addSubscription\<close> throws, the write
  that follows saves the new record alone, and the request is answered with status 200
  and \<open>success\<close> while the record of the other URL is gone.
\<close>

theorem read_failure_drops_other_records_counterexample:
  "fst (fst (subscribe_handler example_platform (example_subscribe example_test_url)
               ((example_world [example_record])\<lparr>get_faults := [False, True]\<rparr>))) = 200
   \<and> (case snd (fst (subscribe_handler example_platform (example_subscribe example_test_url)
                      ((example_world [example_record])\<lparr>get_faults := [False, True]\<rparr>))) of
         SubscribeOk r d \<Rightarrow> sr_success r | SubscribeError m i \<Rightarrow> False)
   \<and> map sub_webhookUrl
        (store (snd (subscribe_handler example_platform (example_subscribe example_test_url)
                       ((example_world [example_record])\<lparr>get_faults := [False, True]\<rparr>))))
       = [example_test_url, example_production_url]
   \<and> untouched [example_test_url, example_production_url]
        (store ((example_world [example_record])\<lparr>get_faults := [False, True]\<rparr>))
       = [example_record]
   \<and> untouched [example_test_url, example_production_url]
        (store (snd (subscribe_handler example_platform (example_subscribe example_test_url)
                       ((example_world [example_record])\<lparr>get_faults := [False, True]\<rparr>))))
       = []"
proof -
  let ?w = "(example_world [example_record])\<lparr>get_faults := [False, True]\<rparr>"
  let ?n = "\<lparr>sub_userKey = generateUserKey example_platform example_test_url,
             sub_channelIds = [example_channel], sub_webhookUrl = example_test_url,
             sub_timestamp = example_clock 0\<rparr>"
  have not_found: "lookup example_test_url [example_record] = None"
    using example_urls_differ by (simp add: lookup_def example_record_def)
  have main: "fst (processSubscription example_platform [example_channel] example_test_url ?w)
                = \<lparr>sr_success = True, sr_userKey = Some (generateUserKey example_platform example_test_url),
                   sr_message = ''Subscribed successfully'', sr_webhookUrl = example_test_url,
                   sr_newlySubscribedChannels = Some [example_channel],
                   sr_resubscribedChannels = None, sr_resubscriptionResults = None\<rparr>"
    and w1: "store (snd (processSubscription example_platform [example_channel] example_test_url ?w))
                = [?n]"
      "reliable (snd (processSubscription example_platform [example_channel] example_test_url ?w))"
    using not_found
    by (simp_all add: processSubscription_def processSubscription_store_def
          findSubscriptionByWebhook_def getSubscriptions_def saveSubscriptions_def
          addSubscription_def redis_get_def redis_set_def new_date_def lookup_def
          subscribeToChannels_def subscribeToChannel_def hub_post_def Let_def split_def
          subscription_message_def pop_fault_def example_world_def store_def reliable_def)
  let ?w1 = "snd (processSubscription example_platform [example_channel] example_test_url ?w)"
  have absent: "lookup example_production_url (store ?w1) = None"
    using example_urls_differ by (simp add: w1(1) lookup_def)
  have w2: "store (snd (processSubscription example_platform [example_channel]
                          example_production_url ?w1))
              = [?n, \<lparr>sub_userKey = generateUserKey example_platform example_production_url,
                       sub_channelIds = [example_channel], sub_webhookUrl = example_production_url,
                       sub_timestamp = clock ?w1 (tick ?w1)\<rparr>]"
  proof -
    have "store (snd (processSubscription example_platform [example_channel]
                        example_production_url ?w1))
            = store (snd (processSubscription_store example_platform [example_channel]
                            example_production_url ?w1))"
      by (rule processSubscription_world(1))
    also note processSubscription_store_new(2)[OF w1(2) absent, of example_platform "[example_channel]"]
    finally show ?thesis unfolding w1(1) by simp
  qed
  have h: "subscribe_handler example_platform (example_subscribe example_test_url) ?w
             = ((200, SubscribeOk
                   (fst (processSubscription example_platform [example_channel] example_test_url ?w))
                   (Some (dualSubscription example_production_url
                      (fst (processSubscription example_platform [example_channel]
                              example_production_url ?w1))))),
                snd (processSubscription example_platform [example_channel]
                       example_production_url ?w1))"
    by (simp add: subscribe_handler_def example_subscribe_def example_validity
          example_counterparts Let_def split_def)
  have before: "untouched [example_test_url, example_production_url] (store ?w) = [example_record]"
    using example_urls_differ by (simp add: untouched_def example_record_def)
  have after: "untouched [example_test_url, example_production_url]
                 (store (snd (subscribe_handler example_platform
                                (example_subscribe example_test_url) ?w))) = []"
    by (simp add: h w2 untouched_def)
  show ?thesis
    using before after by (simp add: h main w2)
qed

end
